theory Spec2Isabelle
  imports Main "HOL-Library.Word"
begin

section \<open>The importer of bitmagnet: data model\<close>

text \<open>
  The development follows \<^verbatim>\<open>internal/importer/importer.go\<close>. Every method of
  \<^verbatim>\<open>activeImport\<close> that touches the session takes the session's mutex for its whole
  body, so each method is one atomic transition of the session state and a run of the
  session is a sequence of such transitions.
\<close>

subsection \<open>Types of package model\<close>

text \<open>
  Modelled from the spec: the declarations of package \<^verbatim>\<open>model\<close> and \<^verbatim>\<open>protocol\<close> are not
  part of the sources at hand. The importer only copies their values, so each is given the
  plainest carrier: \<^verbatim>\<open>protocol.ID\<close> is a byte string, a \<^verbatim>\<open>Null*\<close> type is a value
  with its \<^verbatim>\<open>Valid\<close> flag, and the remaining enrichment types are carriers whose zero value
  is the zero of the carrier.
\<close>

type_synonym protocol_ID = "8 word list"
type_synonym Time = int
type_synonym Duration = int

record 'a nullable =
  Value :: 'a
  Valid :: bool

type_synonym NullString = "string nullable"
type_synonym ContentType = string
type_synonym NullContentType = "ContentType nullable"
type_synonym Date = "nat \<times> nat \<times> nat"
type_synonym Year = "16 word"
type_synonym Episodes = "(int \<times> int) list"
type_synonym NullVideoResolution = "string nullable"
type_synonym NullVideoSource = "string nullable"
type_synonym NullVideoCodec = "string nullable"
type_synonym NullVideo3d = "string nullable"
type_synonym NullVideoModifier = "string nullable"

text \<open>
  Modelled from the spec: \<^verbatim>\<open>model.NewNullString\<close> is not part of the sources at hand; it
  wraps a string as a present value.
\<close>

definition NewNullString :: "string \<Rightarrow> NullString" where
  "NewNullString s = \<lparr>Value = s, Valid = True\<rparr>"

definition zeroNull :: "string nullable" where
  "zeroNull = \<lparr>Value = [], Valid = False\<rparr>"

datatype FilesStatus = FilesStatusNoInfo | FilesStatusOther string

record TorrentSource =
  Key :: string
  Name :: string

record TorrentsTorrentSource =
  Source :: string
  ImportID :: NullString
  PublishedAt :: Time

record TorrentHint =
  ContentType :: ContentType
  ContentSource :: NullString
  ContentID :: NullString
  Title :: NullString
  ReleaseYear :: Year
  Episodes :: Episodes
  VideoResolution :: NullVideoResolution
  VideoSource :: NullVideoSource
  VideoCodec :: NullVideoCodec
  Video3d :: NullVideo3d
  VideoModifier :: NullVideoModifier
  ReleaseGroup :: NullString

text \<open>The zero value of \<^verbatim>\<open>model.TorrentHint\<close>: what a torrent holds when no hint is set.\<close>

definition zeroTorrentHint :: TorrentHint where
  "zeroTorrentHint =
     \<lparr>ContentType = [], ContentSource = zeroNull, ContentID = zeroNull, Title = zeroNull,
      ReleaseYear = 0, Episodes = [], VideoResolution = zeroNull, VideoSource = zeroNull,
      VideoCodec = zeroNull, Video3d = zeroNull, VideoModifier = zeroNull,
      ReleaseGroup = zeroNull\<rparr>"

record Torrent =
  InfoHash :: protocol_ID
  Name :: string
  Size :: "64 word"
  Private :: bool
  FilesStatus :: FilesStatus
  Sources :: "TorrentsTorrentSource list"
  Hint :: TorrentHint

subsection \<open>Types of package importer\<close>

record Item =
  Source :: string
  InfoHash :: protocol_ID
  Name :: string
  Size :: "64 word"
  Private :: bool
  ContentType :: NullContentType
  ContentSource :: NullString
  ContentID :: NullString
  Title :: NullString
  ReleaseDate :: Date
  ReleaseYear :: Year
  Episodes :: Episodes
  VideoResolution :: NullVideoResolution
  VideoSource :: NullVideoSource
  VideoCodec :: NullVideoCodec
  Video3d :: NullVideo3d
  VideoModifier :: NullVideoModifier
  ReleaseGroup :: NullString
  PublishedAt :: Time

record Info =
  ID :: string

subsection \<open>createTorrentModel\<close>

definition createTorrentModel :: "Info \<Rightarrow> Item \<Rightarrow> Torrent" where
  "createTorrentModel nfo item =
     (let t = \<lparr>Torrent.InfoHash = Item.InfoHash item,
                Torrent.Name = Item.Name item,
                Torrent.Size = Item.Size item,
                Torrent.Private = Item.Private item,
                FilesStatus = FilesStatusNoInfo,
                Sources = [\<lparr>TorrentsTorrentSource.Source = Item.Source item,
                            ImportID = NewNullString (ID nfo),
                            TorrentsTorrentSource.PublishedAt = Item.PublishedAt item\<rparr>],
                Hint = zeroTorrentHint\<rparr>
      in if Valid (Item.ContentType item)
         then t\<lparr>Hint :=
                  \<lparr>TorrentHint.ContentType = Value (Item.ContentType item),
                   TorrentHint.ContentSource = Item.ContentSource item,
                   TorrentHint.ContentID = Item.ContentID item,
                   TorrentHint.Title = Item.Title item,
                   TorrentHint.ReleaseYear = Item.ReleaseYear item,
                   TorrentHint.Episodes = Item.Episodes item,
                   TorrentHint.VideoResolution = Item.VideoResolution item,
                   TorrentHint.VideoSource = Item.VideoSource item,
                   TorrentHint.VideoCodec = Item.VideoCodec item,
                   TorrentHint.Video3d = Item.Video3d item,
                   TorrentHint.VideoModifier = Item.VideoModifier item,
                   TorrentHint.ReleaseGroup = Item.ReleaseGroup item\<rparr>\<rparr>
         else t)"

subsection \<open>The session and its collaborators\<close>

text \<open>
  The errors of the package: \<^verbatim>\<open>ErrImportClosed\<close>, and whatever error a collaborator (the
  storage layer or the publisher) returns, kept as an opaque message.
\<close>

datatype error = ErrImportClosed | CollaboratorError string

record ImportItemsError =
  Items :: "Item list"
  Err :: error

type_synonym ImportErrors = "ImportItemsError list"

definition IsNil :: "ImportErrors \<Rightarrow> bool" where
  "IsNil e = (length e = 0)"

definition OrNil :: "ImportErrors \<Rightarrow> ImportErrors option" where
  "OrNil e = (if IsNil e then None else Some e)"

text \<open>
  The three calls the persister makes to its collaborators:
  \<^verbatim>\<open>dao.TorrentSource...Clauses(OnConflict{DoNothing}).CreateInBatches(sources, 100)\<close>,
  \<^verbatim>\<open>dao.Torrent...Clauses(OnConflict{UpdateAll}).CreateInBatches(torrents, 100)\<close> and
  \<^verbatim>\<open>processorPublisher.Publish(ctx, MessageParams{InfoHashes})\<close>.
  The collaborators are outside the importer: their behaviour is the component
  \<open>respond\<close> of a parameter \<open>env\<close>, which gives the result of a call (\<open>None\<close> for a
  nil error) from the calls made so far and their results. The session keeps the log of
  these calls, the only effect the importer has on the outside.

  The other component of \<open>env\<close> belongs to the Go runtime. \<^verbatim>\<open>make([]Item, 0, n)\<close>
  panics with \<^verbatim>\<open>makeslice: cap out of range\<close> when the capacity, read as an \<^verbatim>\<open>int\<close>, is
  negative or needs more memory than the runtime hands out. The largest capacity it
  accepts for a slice of \<^verbatim>\<open>Item\<close> is the runtime's limit divided by the size of an
  \<^verbatim>\<open>Item\<close>, which depends on the platform and on the types of package \<^verbatim>\<open>model\<close>; it
  is the parameter \<open>maxCap\<close>. Running out of memory below that limit ends the program
  and is not followed.
\<close>

datatype call =
    CreateSources "TorrentSource list"
  | CreateTorrents "Torrent list"
  | Publish "protocol_ID list"

type_synonym calls = "(call \<times> error option) list"
record env =
  respond :: "calls \<Rightarrow> call \<Rightarrow> error option"
  maxCap :: nat

text \<open>
  The fields of \<^verbatim>\<open>activeImport\<close> (with the embedded \<^verbatim>\<open>importer\<close>) that carry session state.
  \<^verbatim>\<open>uint\<close> and \<^verbatim>\<open>int\<close> are taken at 64 bits. \<open>ctxDone\<close> is the cancellation of
  \<^verbatim>\<open>i.ctx\<close> by \<^verbatim>\<open>i.stop()\<close>; \<open>chanClosed\<close> says that \<^verbatim>\<open>itemChan\<close> has been closed;
  \<open>itemChan\<close> holds the items sent on the channel whose \<^verbatim>\<open>buffer\<close> task has not run yet
  (the scheduler receives an item and starts \<^verbatim>\<open>go i.buffer(item)\<close>, which then waits for
  the mutex); \<open>calls\<close> is the log of collaborator calls. A slice is a list. The wait
  group is not modelled.
\<close>

record activeImport =
  bufferSize :: "64 word"
  maxWaitTime :: Duration
  stopped :: bool
  ctxDone :: bool
  chanClosed :: bool
  info :: Info
  itemChan :: "Item list"
  itemBuffer :: "Item list"
  importedSources :: "string set"
  importedHashes :: "protocol_ID list"
  errors :: ImportErrors
  calls :: calls

definition New :: "64 word \<Rightarrow> Duration \<Rightarrow> Info \<Rightarrow> activeImport" where
  "New bsize wait nfo =
     \<lparr>bufferSize = bsize, maxWaitTime = wait, stopped = False, ctxDone = False,
      chanClosed = False, info = nfo, itemChan = [], itemBuffer = [],
      importedSources = {}, importedHashes = [], errors = [], calls = []\<rparr>"

subsection \<open>persistItems\<close>

text \<open>
  The loop of \<^verbatim>\<open>persistItems\<close> over the items, with its four accumulators
  \<^verbatim>\<open>sources\<close>, \<^verbatim>\<open>sourcesMap\<close>, \<^verbatim>\<open>torrents\<close> and \<^verbatim>\<open>infoHashes\<close>.
\<close>

type_synonym persistAcc =
  "TorrentSource list \<times> string set \<times> Torrent list \<times> protocol_ID list"

fun persistLoop :: "Info \<Rightarrow> string set \<Rightarrow> Item list \<Rightarrow> persistAcc \<Rightarrow> persistAcc" where
  "persistLoop nfo imported [] acc = acc"
| "persistLoop nfo imported (item # items) (sources, sourcesMap, torrents, infoHashes) =
     (let (sources1, sourcesMap1) =
            (if Item.Source item \<notin> imported
             then (if Item.Source item \<notin> sourcesMap
                   then (sources @ [\<lparr>Key = Item.Source item,
                                      TorrentSource.Name = Item.Source item\<rparr>],
                         insert (Item.Source item) sourcesMap)
                   else (sources, sourcesMap))
             else (sources, sourcesMap));
          torrent = createTorrentModel nfo item
      in persistLoop nfo imported items
           (sources1, sourcesMap1, torrents @ [torrent], infoHashes @ [Item.InfoHash item]))"

text \<open>Logging one collaborator call with the result the environment gives it.\<close>

definition perform :: "env \<Rightarrow> call \<Rightarrow> activeImport \<Rightarrow> error option \<times> activeImport" where
  "perform env c s =
     (let r = respond env (calls s) c in (r, s\<lparr>calls := calls s @ [(c, r)]\<rparr>))"

text \<open>The loop \<^verbatim>\<open>for _, s := range sources { i.importedSources[s.Key] = struct{}{} }\<close>.\<close>

definition markImported :: "TorrentSource list \<Rightarrow> string set \<Rightarrow> string set" where
  "markImported sources imported = foldl (\<lambda>m src. insert (Key src) m) imported sources"

text \<open>Lines 195 to 204: the create-or-ignore insert of the collected sources.\<close>

definition createSources :: "env \<Rightarrow> TorrentSource list \<Rightarrow> activeImport \<Rightarrow> error option \<times> activeImport" where
  "createSources env sources s =
     (if length sources > 0
      then (case perform env (CreateSources sources) s of
              (Some createSourcesErr, s1) \<Rightarrow> (Some createSourcesErr, s1)
            | (None, s1) \<Rightarrow>
                (None, s1\<lparr>importedSources := markImported sources (importedSources s1)\<rparr>))
      else (None, s))"

text \<open>Lines 205 to 218: the upsert of the torrents, the notification, the bookkeeping.\<close>

definition createTorrents ::
  "env \<Rightarrow> Torrent list \<Rightarrow> protocol_ID list \<Rightarrow> activeImport \<Rightarrow> error option \<times> activeImport" where
  "createTorrents env torrents infoHashes s =
     (case perform env (CreateTorrents torrents) s of
        (Some createTorrentsErr, s1) \<Rightarrow> (Some createTorrentsErr, s1)
      | (None, s1) \<Rightarrow>
          (case perform env (Publish infoHashes) s1 of
             (Some publishErr, s2) \<Rightarrow> (Some publishErr, s2)
           | (None, s2) \<Rightarrow>
               (None, s2\<lparr>importedHashes := importedHashes s2 @ infoHashes\<rparr>)))"

definition persistItems :: "env \<Rightarrow> Item list \<Rightarrow> activeImport \<Rightarrow> error option \<times> activeImport" where
  "persistItems env items s =
     (case persistLoop (info s) (importedSources s) items ([], {}, [], []) of
        (sources, sourcesMap, torrents, infoHashes) \<Rightarrow>
          (case createSources env sources s of
             (Some createSourcesErr, s1) \<Rightarrow> (Some createSourcesErr, s1)
           | (None, s1) \<Rightarrow> createTorrents env torrents infoHashes s1))"

subsection \<open>Panics\<close>

text \<open>
  The run-time panics the session can raise: the capacity given to \<^verbatim>\<open>make\<close> in
  \<^verbatim>\<open>flushLocked\<close>, a send on the closed channel in \<^verbatim>\<open>Import\<close>, and a second
  \<^verbatim>\<open>close(i.itemChan)\<close> in \<^verbatim>\<open>Close\<close>. A panic does not take back what the method has
  written so far, so the outcome of a method is either its result or the panic together
  with the session as the panic leaves it.
\<close>

datatype panic = MakeSliceCapOutOfRange | SendOnClosedChannel | CloseOfClosedChannel

type_synonym 'a outcome = "(panic \<times> activeImport) + 'a"

text \<open>\<^verbatim>\<open>make([]Item, 0, n)\<close> for an unsigned \<^verbatim>\<open>n\<close>.\<close>

definition makeItems :: "env \<Rightarrow> 64 word \<Rightarrow> panic + Item list" where
  "makeItems env n =
     (if sint n < 0 \<or> int (maxCap env) < sint n then Inl MakeSliceCapOutOfRange
      else Inr [])"

subsection \<open>Buffering and flushing\<close>

definition flushLocked :: "env \<Rightarrow> activeImport \<Rightarrow> activeImport outcome" where
  "flushLocked env s =
     (if length (itemBuffer s) = 0 then Inr s
      else (case persistItems env (itemBuffer s) s of
              (err, s1) \<Rightarrow>
                (let s2 = (case err of
                             Some e \<Rightarrow>
                               s1\<lparr>errors := errors s1 @ [\<lparr>Items = itemBuffer s1, Err = e\<rparr>]\<rparr>
                           | None \<Rightarrow> s1)
                 in (case makeItems env (bufferSize s2) of
                       Inl p \<Rightarrow> Inl (p, s2)
                     | Inr fresh \<Rightarrow> Inr (s2\<lparr>itemBuffer := fresh\<rparr>)))))"

text \<open>
  \<^verbatim>\<open>len(i.itemBuffer) >= int(i.bufferSize)\<close>: the conversion of the unsigned threshold
  to \<^verbatim>\<open>int\<close> reads the same 64 bits as a signed number.
\<close>

definition buffer :: "env \<Rightarrow> Item \<Rightarrow> activeImport \<Rightarrow> activeImport outcome" where
  "buffer env item s =
     (let s1 = s\<lparr>itemBuffer := itemBuffer s @ [item]\<rparr>
      in if int (length (itemBuffer s1)) \<ge> sint (bufferSize s1)
         then flushLocked env s1 else Inr s1)"

definition flush :: "env \<Rightarrow> activeImport \<Rightarrow> activeImport outcome" where
  "flush env s = flushLocked env s"

subsection \<open>Import and Close\<close>

text \<open>
  A send that is not refused is taken by the scheduler, which starts the item's
  \<^verbatim>\<open>buffer\<close> task; how long the sender waits for that is outside the model.
\<close>

fun sendItems :: "Item list \<Rightarrow> activeImport \<Rightarrow> activeImport outcome" where
  "sendItems [] s = Inr s"
| "sendItems (item # items) s =
     (if chanClosed s then Inl (SendOnClosedChannel, s)
      else sendItems items (s\<lparr>itemChan := itemChan s @ [item]\<rparr>))"

definition Import :: "Item list \<Rightarrow> activeImport \<Rightarrow> (error option \<times> activeImport) outcome" where
  "Import items s =
     (if stopped s then Inr (Some ErrImportClosed, s)
      else (case sendItems items s of
              Inl p \<Rightarrow> Inl p
            | Inr s1 \<Rightarrow> Inr (None, s1)))"

definition Close :: "env \<Rightarrow> activeImport \<Rightarrow> (ImportErrors option \<times> activeImport) outcome" where
  "Close env s =
     (case flushLocked env s of
        Inl p \<Rightarrow> Inl p
      | Inr s1 \<Rightarrow>
          (if \<not> stopped s1
           then (if chanClosed s1
                 then Inl (CloseOfClosedChannel, s1\<lparr>stopped := True, ctxDone := True\<rparr>)
                 else (let s2 = s1\<lparr>stopped := True, ctxDone := True, chanClosed := True\<rparr>
                       in Inr (OrNil (errors s2), s2)))
           else Inr (OrNil (errors s1), s1)))"

definition Err_of :: "activeImport \<Rightarrow> ImportErrors option" where
  "Err_of s = OrNil (errors s)"

definition Closed :: "activeImport \<Rightarrow> bool" where
  "Closed s = stopped s"

definition ImportedHashes :: "activeImport \<Rightarrow> protocol_ID list" where
  "ImportedHashes s = importedHashes s"

subsection \<open>Runs of a session\<close>

text \<open>
  What can happen to a session, one mutex-protected transition at a time: a producer calls
  \<^verbatim>\<open>Import\<close>; the \<^verbatim>\<open>buffer\<close> task of one of the items in flight gets the mutex (tasks
  started with \<^verbatim>\<open>go\<close> run in any order, so the task is picked by its position); the
  scheduler's timer starts \<^verbatim>\<open>flush\<close>; somebody calls \<^verbatim>\<open>Close\<close> (the producer, or the
  scheduler when it sees the cancellation). A run ends at the first panic.
\<close>

definition deliver :: "env \<Rightarrow> nat \<Rightarrow> activeImport \<Rightarrow> activeImport outcome" where
  "deliver env n s =
     (if n < length (itemChan s)
      then buffer env (itemChan s ! n)
             (s\<lparr>itemChan := take n (itemChan s) @ drop (Suc n) (itemChan s)\<rparr>)
      else Inr s)"

datatype op = OpImport "Item list" | OpBuffer nat | OpFlush | OpClose

fun step :: "env \<Rightarrow> op \<Rightarrow> activeImport \<Rightarrow> activeImport outcome" where
  "step env (OpImport items) s =
     (case Import items s of Inl p \<Rightarrow> Inl p | Inr (err, s1) \<Rightarrow> Inr s1)"
| "step env (OpBuffer n) s = deliver env n s"
| "step env OpFlush s = flush env s"
| "step env OpClose s =
     (case Close env s of Inl p \<Rightarrow> Inl p | Inr (err, s1) \<Rightarrow> Inr s1)"

fun exec :: "env \<Rightarrow> op list \<Rightarrow> activeImport \<Rightarrow> activeImport outcome" where
  "exec env [] s = Inr s"
| "exec env (x # xs) s =
     (case step env x s of Inl p \<Rightarrow> Inl p | Inr s1 \<Rightarrow> exec env xs s1)"

text \<open>
  The scheduler loop of \<^verbatim>\<open>run\<close> against a clock. Each iteration of the \<^verbatim>\<open>for\<close> loop
  evaluates \<^verbatim>\<open>time.After(i.maxWaitTime)\<close> anew, so the timer of an iteration starts when
  the iteration starts. The input gives the items in their order of arrival, each with the
  time between the start of the current iteration and the moment a producer offers it. If
  the item is offered before the timer fires, the receive case runs and the item is
  buffered; otherwise the timer case runs \<^verbatim>\<open>flush\<close>, and the next iteration starts
  \<^verbatim>\<open>maxWaitTime\<close> later with the item still to come. The tasks started with \<^verbatim>\<open>go\<close> are
  taken to run at once and to take no time; a panic in one of them ends the program. A
  wait time that is not positive makes the timer fire at once in every iteration; that
  busy loop is not followed (\<open>None\<close>). The cancellation case is not part of this fragment.
\<close>

function run :: "env \<Rightarrow> (nat \<times> Item) list \<Rightarrow> activeImport \<Rightarrow> activeImport outcome option" where
  "run env [] s = Some (Inr s)"
| "run env ((gap, item) # rest) s =
     (if maxWaitTime s \<le> 0 then None
      else if int gap < maxWaitTime s
      then (case buffer env item s of
              Inl p \<Rightarrow> Some (Inl p)
            | Inr s1 \<Rightarrow> run env rest s1)
      else (case flush env s of
              Inl p \<Rightarrow> Some (Inl p)
            | Inr s1 \<Rightarrow> run env ((gap - nat (maxWaitTime s), item) # rest) s1))"
  by pat_completeness auto
termination
  by (relation "measure (\<lambda>(env, arrivals, s). sum_list (map fst arrivals) + length arrivals)")
     auto

subsection \<open>Notions used to state the properties\<close>

text \<open>The sources a batch would insert, its torrents and its fingerprints.\<close>

definition newSources :: "activeImport \<Rightarrow> Item list \<Rightarrow> TorrentSource list" where
  "newSources s items = fst (persistLoop (info s) (importedSources s) items ([], {}, [], []))"

definition batchTorrents :: "activeImport \<Rightarrow> Item list \<Rightarrow> Torrent list" where
  "batchTorrents s items =
     fst (snd (snd (persistLoop (info s) (importedSources s) items ([], {}, [], []))))"

definition batchHashes :: "activeImport \<Rightarrow> Item list \<Rightarrow> protocol_ID list" where
  "batchHashes s items =
     snd (snd (snd (persistLoop (info s) (importedSources s) items ([], {}, [], []))))"

text \<open>The collaborator calls made between two states of a session.\<close>

definition newCalls :: "activeImport \<Rightarrow> activeImport \<Rightarrow> calls" where
  "newCalls s s' = drop (length (calls s)) (calls s')"

text \<open>
  The log entry of a successful insert of the new sources of a batch; there is none when
  the batch has no new source and the insert is skipped.
\<close>

definition insertLog :: "activeImport \<Rightarrow> Item list \<Rightarrow> calls" where
  "insertLog s items =
     (if newSources s items = [] then [] else [(CreateSources (newSources s items), None)])"

text \<open>
  The session as lines 166 to 172 of \<^verbatim>\<open>flushLocked\<close> leave it: the persister has run on
  the buffer and its error, if any, is recorded; the buffer is still in place.
\<close>

definition persisted :: "env \<Rightarrow> activeImport \<Rightarrow> activeImport" where
  "persisted env s =
     (snd (persistItems env (itemBuffer s) s))
       \<lparr>errors := (case fst (persistItems env (itemBuffer s) s) of
                     None \<Rightarrow> errors s
                   | Some e \<Rightarrow> errors s @ [\<lparr>Items = itemBuffer s, Err = e\<rparr>])\<rparr>"

text \<open>Whether \<^verbatim>\<open>make\<close> accepts the threshold of the session as a capacity.\<close>

definition capOk :: "env \<Rightarrow> activeImport \<Rightarrow> bool" where
  "capOk env s \<longleftrightarrow> 0 \<le> sint (bufferSize s) \<and> sint (bufferSize s) \<le> int (maxCap env)"

text \<open>The session as a call leaves it, whether the call returned or panicked.\<close>

fun stateOf :: "activeImport outcome \<Rightarrow> activeImport" where
  "stateOf (Inl (p, s)) = s"
| "stateOf (Inr s) = s"

text \<open>Whether a logged call is a create-or-ignore insert that lists the key.\<close>

fun insertsKey :: "string \<Rightarrow> call \<times> error option \<Rightarrow> bool" where
  "insertsKey k (CreateSources sources, r) = (k \<in> set (map Key sources))"
| "insertsKey k (CreateTorrents torrents, r) = False"
| "insertsKey k (Publish infoHashes, r) = False"

definition issuedFor :: "string \<Rightarrow> calls \<Rightarrow> calls" where
  "issuedFor k cs = filter (insertsKey k) cs"

definition succeeded :: "call \<times> error option \<Rightarrow> bool" where
  "succeeded e = (snd e = None)"

text \<open>
  What holds of a key in every state of a session: no insert lists a key twice; of the
  inserts that list the key, all but the last have failed; and the key is in the set of
  imported sources exactly when an insert that lists it has succeeded.
\<close>

definition distinctInserts :: "calls \<Rightarrow> bool" where
  "distinctInserts cs = (\<forall>sources r. (CreateSources sources, r) \<in> set cs \<longrightarrow> distinct (map Key sources))"

definition sourceInv :: "string \<Rightarrow> activeImport \<Rightarrow> bool" where
  "sourceInv k s \<longleftrightarrow>
     distinctInserts (calls s) \<and>
     (\<forall>e \<in> set (butlast (issuedFor k (calls s))). \<not> succeeded e) \<and>
     (k \<in> importedSources s \<longleftrightarrow> (\<exists>e \<in> set (issuedFor k (calls s)). succeeded e))"

subsection \<open>Sample data\<close>

definition sampleItem :: "string \<Rightarrow> protocol_ID \<Rightarrow> Item" where
  "sampleItem src h =
     \<lparr>Item.Source = src, Item.InfoHash = h, Item.Name = ''name'', Item.Size = 42,
      Item.Private = False, Item.ContentType = zeroNull, Item.ContentSource = zeroNull,
      Item.ContentID = zeroNull, Item.Title = zeroNull, ReleaseDate = (0, 0, 0),
      Item.ReleaseYear = 0, Item.Episodes = [], Item.VideoResolution = zeroNull,
      Item.VideoSource = zeroNull, Item.VideoCodec = zeroNull, Item.Video3d = zeroNull,
      Item.VideoModifier = zeroNull, Item.ReleaseGroup = zeroNull, Item.PublishedAt = 7\<rparr>"

definition sampleMovie :: Item where
  "sampleMovie =
     (sampleItem ''tracker'' [1, 2, 3])
       \<lparr>Item.ContentType := \<lparr>Value = ''movie'', Valid = True\<rparr>,
        Item.Title := \<lparr>Value = ''A Title'', Valid = True\<rparr>,
        Item.ReleaseYear := 1999\<rparr>"

definition sampleInfo :: Info where
  "sampleInfo = \<lparr>ID = ''import-1''\<rparr>"

text \<open>
  The sample environments take \<open>2 ^ 42\<close> for the largest capacity: the runtime of a 64-bit
  Linux hands out at most \<open>2 ^ 48\<close> bytes, and the strings, the hash and the numbers of an
  \<^verbatim>\<open>Item\<close> alone need more than 64 bytes, so the real limit is below this one.
\<close>

definition sampleMaxCap :: nat where
  "sampleMaxCap = 4398046511104"

definition envOk :: env where
  "envOk = \<lparr>respond = (\<lambda>cs c. None), maxCap = sampleMaxCap\<rparr>"

definition envFail :: env where
  "envFail = \<lparr>respond = (\<lambda>cs c. Some (CollaboratorError ''down'')), maxCap = sampleMaxCap\<rparr>"

definition envFailFirst :: env where
  "envFailFirst =
     \<lparr>respond = (\<lambda>cs c. if cs = [] then Some (CollaboratorError ''first'') else None),
      maxCap = sampleMaxCap\<rparr>"

definition envFailTorrents :: env where
  "envFailTorrents =
     \<lparr>respond = (\<lambda>cs c. case c of
                          CreateTorrents torrents \<Rightarrow> Some (CollaboratorError ''upsert'')
                        | _ \<Rightarrow> None),
      maxCap = sampleMaxCap\<rparr>"

definition envFailPublish :: env where
  "envFailPublish =
     \<lparr>respond = (\<lambda>cs c. case c of
                          Publish infoHashes \<Rightarrow> Some (CollaboratorError ''publish'')
                        | _ \<Rightarrow> None),
      maxCap = sampleMaxCap\<rparr>"

section \<open>The persister\<close>

subsection \<open>What the loop collects\<close>

lemma persistLoop_torrents:
  "persistLoop nfo imported items (sources, sourcesMap, torrents, infoHashes) = (sources', sourcesMap', torrents', infoHashes')
   \<Longrightarrow> torrents' = torrents @ map (createTorrentModel nfo) items
     \<and> infoHashes' = infoHashes @ map Item.InfoHash items"
proof (induction items arbitrary: sources sourcesMap torrents infoHashes)
  case Nil
  then show ?case by simp
next
  case (Cons item items)
  from Cons.prems obtain s1 m1 where
    "persistLoop nfo imported items (s1, m1, torrents @ [createTorrentModel nfo item],
       infoHashes @ [Item.InfoHash item]) = (sources', sourcesMap', torrents', infoHashes')"
    by (simp add: Let_def split: if_splits)
  from Cons.IH [OF this] show ?case by simp
qed

lemma persistLoop_sources:
  "persistLoop nfo imported items (sources, sourcesMap, torrents, infoHashes) = (sources', sourcesMap', torrents', infoHashes')
   \<Longrightarrow> sourcesMap = Key ` set sources \<Longrightarrow> distinct (map Key sources)
   \<Longrightarrow> Key ` set sources \<inter> imported = {}
   \<Longrightarrow> sourcesMap' = Key ` set sources' \<and> distinct (map Key sources')
     \<and> Key ` set sources' \<inter> imported = {}
     \<and> Key ` set sources' = Key ` set sources \<union> (Item.Source ` set items - imported)"
proof (induction items arbitrary: sources sourcesMap torrents infoHashes)
  case Nil
  then show ?case by auto
next
  case (Cons item items)
  show ?case
  proof (cases "Item.Source item \<notin> imported \<and> Item.Source item \<notin> sourcesMap")
    case True
    let ?src = "\<lparr>Key = Item.Source item, TorrentSource.Name = Item.Source item\<rparr>"
    from Cons.prems(1) True have run:
      "persistLoop nfo imported items (sources @ [?src], insert (Item.Source item) sourcesMap,
         torrents @ [createTorrentModel nfo item], infoHashes @ [Item.InfoHash item])
       = (sources', sourcesMap', torrents', infoHashes')"
      by simp
    have a: "insert (Item.Source item) sourcesMap = Key ` set (sources @ [?src])"
      using Cons.prems(2) by auto
    have b: "distinct (map Key (sources @ [?src]))"
      using Cons.prems(2,3) True by auto
    have c: "Key ` set (sources @ [?src]) \<inter> imported = {}"
      using Cons.prems(4) True by auto
    from Cons.IH [OF run a b c] have h:
      "sourcesMap' = Key ` set sources'" "distinct (map Key sources')"
      "Key ` set sources' \<inter> imported = {}"
      "Key ` set sources' = Key ` set (sources @ [?src]) \<union> (Item.Source ` set items - imported)"
      by blast+
    have e: "Key ` set (sources @ [?src]) \<union> (Item.Source ` set items - imported)
       = Key ` set sources \<union> (Item.Source ` set (item # items) - imported)"
      using True by auto
    show ?thesis
      using h(1,2,3) h(4) [unfolded e] by (intro conjI)
  next
    case False
    with Cons.prems(1) have run:
      "persistLoop nfo imported items (sources, sourcesMap,
         torrents @ [createTorrentModel nfo item], infoHashes @ [Item.InfoHash item])
       = (sources', sourcesMap', torrents', infoHashes')"
      by (auto split: if_splits)
    from Cons.IH [OF run Cons.prems(2,3,4)] have h:
      "sourcesMap' = Key ` set sources'" "distinct (map Key sources')"
      "Key ` set sources' \<inter> imported = {}"
      "Key ` set sources' = Key ` set sources \<union> (Item.Source ` set items - imported)"
      by blast+
    have e: "Key ` set sources \<union> (Item.Source ` set items - imported)
       = Key ` set sources \<union> (Item.Source ` set (item # items) - imported)"
      using False Cons.prems(2) by auto
    show ?thesis
      using h(1,2,3) h(4) [unfolded e] by (intro conjI)
  qed
qed

lemma markImported_eq: "markImported sources imported = imported \<union> Key ` set sources"
  unfolding markImported_def
  by (induction sources arbitrary: imported) auto

lemma batchTorrents_eq: "batchTorrents s items = map (createTorrentModel (info s)) items"
proof -
  obtain a b c d where e: "persistLoop (info s) (importedSources s) items ([], {}, [], []) = (a, b, c, d)"
    by (metis prod_cases4)
  from persistLoop_torrents [OF e] e show ?thesis by (simp add: batchTorrents_def)
qed

lemma batchHashes_eq: "batchHashes s items = map Item.InfoHash items"
proof -
  obtain a b c d where e: "persistLoop (info s) (importedSources s) items ([], {}, [], []) = (a, b, c, d)"
    by (metis prod_cases4)
  from persistLoop_torrents [OF e] e show ?thesis by (simp add: batchHashes_def)
qed

lemma newSources_keys:
  "distinct (map Key (newSources s items))"
  "Key ` set (newSources s items) \<inter> importedSources s = {}"
  "Key ` set (newSources s items) = Item.Source ` set items - importedSources s"
proof -
  obtain a b c d where e: "persistLoop (info s) (importedSources s) items ([], {}, [], []) = (a, b, c, d)"
    by (metis prod_cases4)
  have "newSources s items = a" using e by (simp add: newSources_def)
  with persistLoop_sources [OF e] show
    "distinct (map Key (newSources s items))"
    "Key ` set (newSources s items) \<inter> importedSources s = {}"
    "Key ` set (newSources s items) = Item.Source ` set items - importedSources s"
    by auto
qed

lemma persistItems_eq:
  "persistItems env items s =
     (case createSources env (newSources s items) s of
        (Some e, s1) \<Rightarrow> (Some e, s1)
      | (None, s1) \<Rightarrow> createTorrents env (batchTorrents s items) (batchHashes s items) s1)"
proof -
  obtain a b c d where e: "persistLoop (info s) (importedSources s) items ([], {}, [], []) = (a, b, c, d)"
    by (metis prod_cases4)
  then have "newSources s items = a" "batchTorrents s items = c" "batchHashes s items = d"
    by (simp_all add: newSources_def batchTorrents_def batchHashes_def)
  with e show ?thesis
    by (simp add: persistItems_def split: prod.splits option.splits)
qed

lemma createSources_cases:
  "createSources env sources s =
     (if sources = [] then (None, s)
      else if respond env (calls s) (CreateSources sources) = None
      then (None, s\<lparr>calls := calls s @ [(CreateSources sources, None)],
                    importedSources := importedSources s \<union> Key ` set sources\<rparr>)
      else (respond env (calls s) (CreateSources sources),
            s\<lparr>calls := calls s @ [(CreateSources sources, respond env (calls s) (CreateSources sources))]\<rparr>))"
  by (auto simp: createSources_def perform_def Let_def markImported_eq split: option.splits)

lemma createTorrents_cases:
  "createTorrents env torrents infoHashes s =
     (let r1 = respond env (calls s) (CreateTorrents torrents);
          cs1 = calls s @ [(CreateTorrents torrents, r1)];
          r2 = respond env cs1 (Publish infoHashes);
          cs2 = cs1 @ [(Publish infoHashes, r2)]
      in if r1 \<noteq> None then (r1, s\<lparr>calls := cs1\<rparr>)
         else if r2 \<noteq> None then (r2, s\<lparr>calls := cs2\<rparr>)
         else (None, s\<lparr>calls := cs2, importedHashes := importedHashes s @ infoHashes\<rparr>))"
  by (auto simp: createTorrents_def perform_def Let_def split: option.splits)


lemma persistItems_cases:
  "persistItems env items s =
     (let srcs = newSources s items; ts = batchTorrents s items; hs = batchHashes s items;
          r0 = respond env (calls s) (CreateSources srcs);
          s1 = (if srcs = [] then s
                else s\<lparr>calls := calls s @ [(CreateSources srcs, r0)],
                       importedSources := (if r0 = None then importedSources s \<union> Key ` set srcs
                                           else importedSources s)\<rparr>);
          r1 = respond env (calls s1) (CreateTorrents ts);
          cs1 = calls s1 @ [(CreateTorrents ts, r1)];
          r2 = respond env cs1 (Publish hs);
          cs2 = cs1 @ [(Publish hs, r2)]
      in if srcs \<noteq> [] \<and> r0 \<noteq> None then (r0, s1)
         else if r1 \<noteq> None then (r1, s1\<lparr>calls := cs1\<rparr>)
         else if r2 \<noteq> None then (r2, s1\<lparr>calls := cs2\<rparr>)
         else (None, s1\<lparr>calls := cs2, importedHashes := importedHashes s @ hs\<rparr>))"
proof (cases "newSources s items = []")
  case True
  then show ?thesis
    by (simp add: persistItems_eq createSources_cases createTorrents_cases Let_def)
next
  case False
  show ?thesis
  proof (cases "respond env (calls s) (CreateSources (newSources s items))")
    case None
    with False show ?thesis
      by (simp add: persistItems_eq createSources_cases createTorrents_cases Let_def)
  next
    case (Some e)
    with False show ?thesis
      by (simp add: persistItems_eq createSources_cases Let_def)
  qed
qed



lemma persistItems_frame:
  "bufferSize (snd (persistItems env items s)) = bufferSize s"
  "maxWaitTime (snd (persistItems env items s)) = maxWaitTime s"
  "stopped (snd (persistItems env items s)) = stopped s"
  "ctxDone (snd (persistItems env items s)) = ctxDone s"
  "chanClosed (snd (persistItems env items s)) = chanClosed s"
  "info (snd (persistItems env items s)) = info s"
  "itemChan (snd (persistItems env items s)) = itemChan s"
  "itemBuffer (snd (persistItems env items s)) = itemBuffer s"
  "errors (snd (persistItems env items s)) = errors s"
  by (simp_all add: persistItems_cases Let_def)

subsection \<open>One torrent for each item\<close>

text \<open>
  Claim C8. The persister builds one torrent for each item of the batch, in the order of the
  items. The torrent of an item carries the item's fingerprint, name, size and privacy
  flag, the status \<^verbatim>\<open>FilesStatusNoInfo\<close>, and a single provenance entry with the item's
  source, the import identifier of the session and the item's publication time. If the
  item's content type is valid the hint of the torrent mirrors the item's enrichment fields
  (content type, content source and id, title, release year, episodes, the video
  attributes, release group); if it is not valid the hint is left at its zero value.
  The release date of the item has no field in the hint and is not copied.
\<close>

theorem createTorrentModel_per_item:
  "length (batchTorrents s items) = length items \<and>
   (\<forall>n < length items.
      Torrent.InfoHash (batchTorrents s items ! n) = Item.InfoHash (items ! n) \<and>
      Torrent.Name (batchTorrents s items ! n) = Item.Name (items ! n) \<and>
      Torrent.Size (batchTorrents s items ! n) = Item.Size (items ! n) \<and>
      Torrent.Private (batchTorrents s items ! n) = Item.Private (items ! n) \<and>
      FilesStatus (batchTorrents s items ! n) = FilesStatusNoInfo \<and>
      Sources (batchTorrents s items ! n) =
        [\<lparr>TorrentsTorrentSource.Source = Item.Source (items ! n),
          ImportID = \<lparr>Value = ID (info s), Valid = True\<rparr>,
          TorrentsTorrentSource.PublishedAt = Item.PublishedAt (items ! n)\<rparr>] \<and>
      (Valid (Item.ContentType (items ! n)) \<longrightarrow>
         Hint (batchTorrents s items ! n) =
           \<lparr>TorrentHint.ContentType = Value (Item.ContentType (items ! n)),
            TorrentHint.ContentSource = Item.ContentSource (items ! n),
            TorrentHint.ContentID = Item.ContentID (items ! n),
            TorrentHint.Title = Item.Title (items ! n),
            TorrentHint.ReleaseYear = Item.ReleaseYear (items ! n),
            TorrentHint.Episodes = Item.Episodes (items ! n),
            TorrentHint.VideoResolution = Item.VideoResolution (items ! n),
            TorrentHint.VideoSource = Item.VideoSource (items ! n),
            TorrentHint.VideoCodec = Item.VideoCodec (items ! n),
            TorrentHint.Video3d = Item.Video3d (items ! n),
            TorrentHint.VideoModifier = Item.VideoModifier (items ! n),
            TorrentHint.ReleaseGroup = Item.ReleaseGroup (items ! n)\<rparr>) \<and>
      (\<not> Valid (Item.ContentType (items ! n)) \<longrightarrow>
         Hint (batchTorrents s items ! n) = zeroTorrentHint))"
  by (simp add: batchTorrents_eq createTorrentModel_def NewNullString_def Let_def)

theorem createTorrentModel_per_item_witness:
  "(1::nat) < length [sampleMovie, sampleItem ''rss'' [9]] \<and>
   Valid (Item.ContentType ([sampleMovie, sampleItem ''rss'' [9]] ! 0)) \<and>
   \<not> Valid (Item.ContentType ([sampleMovie, sampleItem ''rss'' [9]] ! 1)) \<and>
   length (batchTorrents (New 10 1000 sampleInfo) [sampleMovie, sampleItem ''rss'' [9]]) = 2 \<and>
   Hint (batchTorrents (New 10 1000 sampleInfo) [sampleMovie, sampleItem ''rss'' [9]] ! 0) =
     \<lparr>TorrentHint.ContentType = ''movie'', TorrentHint.ContentSource = zeroNull,
      TorrentHint.ContentID = zeroNull,
      TorrentHint.Title = \<lparr>Value = ''A Title'', Valid = True\<rparr>,
      TorrentHint.ReleaseYear = 1999, TorrentHint.Episodes = [],
      TorrentHint.VideoResolution = zeroNull, TorrentHint.VideoSource = zeroNull,
      TorrentHint.VideoCodec = zeroNull, TorrentHint.Video3d = zeroNull,
      TorrentHint.VideoModifier = zeroNull, TorrentHint.ReleaseGroup = zeroNull\<rparr> \<and>
   Hint (batchTorrents (New 10 1000 sampleInfo) [sampleMovie, sampleItem ''rss'' [9]] ! 1) =
     zeroTorrentHint \<and>
   Sources (batchTorrents (New 10 1000 sampleInfo) [sampleMovie, sampleItem ''rss'' [9]] ! 1) =
     [\<lparr>TorrentsTorrentSource.Source = ''rss'',
       ImportID = \<lparr>Value = ''import-1'', Valid = True\<rparr>,
       TorrentsTorrentSource.PublishedAt = 7\<rparr>]"
proof -
  let ?items = "[sampleMovie, sampleItem ''rss'' [9]]"
  let ?s = "New 10 1000 sampleInfo"
  have v: "Valid (Item.ContentType (?items ! 0))" "\<not> Valid (Item.ContentType (?items ! 1))"
    by (simp_all add: sampleMovie_def sampleItem_def zeroNull_def)
  have l: "(0::nat) < length ?items" "(1::nat) < length ?items" by simp_all
  from createTorrentModel_per_item [of ?s ?items] l v
  show ?thesis
    by (simp add: sampleMovie_def sampleItem_def zeroNull_def New_def sampleInfo_def)
qed

section \<open>Flushing\<close>

lemma persisted_frame:
  "bufferSize (persisted env s) = bufferSize s"
  "maxWaitTime (persisted env s) = maxWaitTime s"
  "stopped (persisted env s) = stopped s"
  "ctxDone (persisted env s) = ctxDone s"
  "chanClosed (persisted env s) = chanClosed s"
  "info (persisted env s) = info s"
  "itemChan (persisted env s) = itemChan s"
  "itemBuffer (persisted env s) = itemBuffer s"
  by (simp_all add: persisted_def persistItems_frame)

lemma persisted_calls:
  "calls (persisted env s) = calls (snd (persistItems env (itemBuffer s) s))"
  "importedSources (persisted env s) = importedSources (snd (persistItems env (itemBuffer s) s))"
  "importedHashes (persisted env s) = importedHashes (snd (persistItems env (itemBuffer s) s))"
  by (simp_all add: persisted_def)

lemma flushLocked_eq:
  "flushLocked env s =
     (if itemBuffer s = [] then Inr s
      else if capOk env s then Inr ((persisted env s)\<lparr>itemBuffer := []\<rparr>)
      else Inl (MakeSliceCapOutOfRange, persisted env s))"
proof (cases "itemBuffer s = []")
  case True
  then show ?thesis by (simp add: flushLocked_def)
next
  case False
  obtain r s1 where p: "persistItems env (itemBuffer s) s = (r, s1)"
    by (cases "persistItems env (itemBuffer s) s")
  from persistItems_frame(1,8,9) [of env "itemBuffer s" s] p
  have f: "bufferSize s1 = bufferSize s" "itemBuffer s1 = itemBuffer s" "errors s1 = errors s"
    by simp_all
  have s2: "(case r of Some e \<Rightarrow> s1\<lparr>errors := errors s1 @ [\<lparr>Items = itemBuffer s1, Err = e\<rparr>]\<rparr>
             | None \<Rightarrow> s1) = persisted env s"
    using f by (cases r) (simp_all add: persisted_def p)
  have b: "bufferSize (persisted env s) = bufferSize s" by (rule persisted_frame)
  show ?thesis
    using False
    by (simp add: flushLocked_def p Let_def s2 b makeItems_def capOk_def not_le not_less)
qed

lemma flushLocked_empty: "itemBuffer s = [] \<Longrightarrow> flushLocked env s = Inr s"
  by (simp add: flushLocked_def)

lemma flushLocked_frame:
  "bufferSize (stateOf (flushLocked env s)) = bufferSize s"
  "maxWaitTime (stateOf (flushLocked env s)) = maxWaitTime s"
  "stopped (stateOf (flushLocked env s)) = stopped s"
  "ctxDone (stateOf (flushLocked env s)) = ctxDone s"
  "chanClosed (stateOf (flushLocked env s)) = chanClosed s"
  "info (stateOf (flushLocked env s)) = info s"
  "itemChan (stateOf (flushLocked env s)) = itemChan s"
  by (simp_all add: flushLocked_eq persisted_frame)

lemma flushLocked_Inr:
  assumes "flushLocked env s = Inr f"
  shows "bufferSize f = bufferSize s" "maxWaitTime f = maxWaitTime s" "stopped f = stopped s"
    "ctxDone f = ctxDone s" "chanClosed f = chanClosed s" "info f = info s"
    "itemChan f = itemChan s" "itemBuffer f = []"
proof -
  from assms have e: "stateOf (flushLocked env s) = f" by simp
  from flushLocked_frame [of env s] show
    "bufferSize f = bufferSize s" "maxWaitTime f = maxWaitTime s" "stopped f = stopped s"
    "ctxDone f = ctxDone s" "chanClosed f = chanClosed s" "info f = info s"
    "itemChan f = itemChan s"
    unfolding e by simp_all
  from assms show "itemBuffer f = []"
    by (auto simp: flushLocked_eq split: if_splits)
qed

text \<open>
  Claim C3 says that a flush of a buffer that is not empty always leaves a fresh, empty
  buffer. The code does not do so for a threshold that \<^verbatim>\<open>make\<close> refuses as a capacity.
  With a threshold of \<open>2 ^ 62\<close> a record is sent and buffered without a flush; the flush
  that follows runs the persister on it, successfully, and then panics at line 173, with
  the record still in the buffer.
\<close>

theorem flushLocked_large_threshold:
  "exec envOk [OpImport [sampleItem ''rss'' [9]], OpBuffer 0]
     (New 4611686018427387904 1000 sampleInfo) =
     Inr ((New 4611686018427387904 1000 sampleInfo)\<lparr>itemBuffer := [sampleItem ''rss'' [9]]\<rparr>) \<and>
   flushLocked envOk
     ((New 4611686018427387904 1000 sampleInfo)\<lparr>itemBuffer := [sampleItem ''rss'' [9]]\<rparr>) =
     Inl (MakeSliceCapOutOfRange,
          (New 4611686018427387904 1000 sampleInfo)
            \<lparr>itemBuffer := [sampleItem ''rss'' [9]], importedSources := {''rss''},
             importedHashes := [[9]],
             calls := [(CreateSources [\<lparr>Key = ''rss'', TorrentSource.Name = ''rss''\<rparr>], None),
                       (CreateTorrents [createTorrentModel sampleInfo (sampleItem ''rss'' [9])],
                          None),
                       (Publish [[9]], None)]\<rparr>)"
  by (simp add: Import_def deliver_def buffer_def flushLocked_def makeItems_def
        persistItems_def createSources_def createTorrents_def perform_def markImported_def
        envOk_def sampleMaxCap_def New_def sampleItem_def Let_def)

section \<open>Import, Close and runs\<close>

lemma buffer_frame:
  "bufferSize (stateOf (buffer env item s)) = bufferSize s"
  "maxWaitTime (stateOf (buffer env item s)) = maxWaitTime s"
  "stopped (stateOf (buffer env item s)) = stopped s"
  "ctxDone (stateOf (buffer env item s)) = ctxDone s"
  "chanClosed (stateOf (buffer env item s)) = chanClosed s"
  "info (stateOf (buffer env item s)) = info s"
  "itemChan (stateOf (buffer env item s)) = itemChan s"
  by (simp_all add: buffer_def Let_def flushLocked_frame)

lemma deliver_frame:
  "bufferSize (stateOf (deliver env n s)) = bufferSize s"
  "maxWaitTime (stateOf (deliver env n s)) = maxWaitTime s"
  "stopped (stateOf (deliver env n s)) = stopped s"
  "ctxDone (stateOf (deliver env n s)) = ctxDone s"
  "chanClosed (stateOf (deliver env n s)) = chanClosed s"
  "info (stateOf (deliver env n s)) = info s"
  by (simp_all add: deliver_def buffer_frame)

lemma sendItems_open:
  "\<not> chanClosed s \<Longrightarrow> sendItems items s = Inr (s\<lparr>itemChan := itemChan s @ items\<rparr>)"
  by (induction items arbitrary: s) simp_all

lemma Import_stopped: "stopped s \<Longrightarrow> Import items s = Inr (Some ErrImportClosed, s)"
  by (simp add: Import_def)

lemma Import_open:
  "\<not> stopped s \<Longrightarrow> \<not> chanClosed s \<Longrightarrow>
   Import items s = Inr (None, s\<lparr>itemChan := itemChan s @ items\<rparr>)"
  by (simp add: Import_def sendItems_open)

lemma Close_open:
  assumes "\<not> stopped s" and "\<not> chanClosed s" and "flushLocked env s = Inr f"
  shows "Close env s =
    Inr (OrNil (errors f), f\<lparr>stopped := True, ctxDone := True, chanClosed := True\<rparr>)"
  using assms flushLocked_Inr(3,5) [OF assms(3)]
  by (simp add: Close_def Let_def)

lemma Close_stopped:
  assumes "stopped s" and "flushLocked env s = Inr f"
  shows "Close env s = Inr (OrNil (errors f), f)"
  using assms flushLocked_Inr(3) [OF assms(2)]
  by (simp add: Close_def)

lemma Close_marks_stopped:
  assumes "Close env s = Inr (r, s1)"
  shows "stopped s1"
proof (cases "flushLocked env s")
  case (Inl p)
  with assms show ?thesis by (simp add: Close_def)
next
  case (Inr f)
  with assms show ?thesis
    by (auto simp: Close_def Let_def split: if_splits)
qed

lemma step_keeps_stopped:
  assumes "stopped s" and "step env x s = Inr s1"
  shows "stopped s1"
proof (cases x)
  case (OpImport items)
  with assms show ?thesis by (simp add: Import_stopped)
next
  case (OpBuffer n)
  with assms have "stateOf (deliver env n s) = s1" by simp
  with deliver_frame(3) [of env n s] assms(1) show ?thesis by simp
next
  case OpFlush
  with assms have "stateOf (flushLocked env s) = s1" by (simp add: flush_def)
  with flushLocked_frame(3) [of env s] assms(1) show ?thesis by simp
next
  case OpClose
  with assms obtain r where "Close env s = Inr (r, s1)"
    by (auto split: sum.splits)
  then show ?thesis by (rule Close_marks_stopped)
qed

lemma exec_keeps_stopped: "stopped s \<Longrightarrow> exec env ops s = Inr s1 \<Longrightarrow> stopped s1"
proof (induction ops arbitrary: s)
  case Nil
  then show ?case by simp
next
  case (Cons x xs)
  from Cons.prems(2) obtain s' where st: "step env x s = Inr s'" and ex: "exec env xs s' = Inr s1"
    by (auto split: sum.splits)
  from step_keeps_stopped [OF Cons.prems(1) st] have "stopped s'" .
  from Cons.IH [OF this ex] show ?case .
qed

text \<open>
  In every state of a session the channel is closed exactly when the session is stopped,
  so the two panics of the channel are never raised.
\<close>

lemma step_channel:
  assumes "chanClosed s = stopped s"
  shows "chanClosed (stateOf (step env x s)) = stopped (stateOf (step env x s)) \<and>
        (\<forall>p s'. step env x s = Inl (p, s') \<longrightarrow> p = MakeSliceCapOutOfRange)"
proof (cases x)
    case (OpImport items)
    with assms show ?thesis
      by (cases "stopped s") (simp_all add: Import_stopped Import_open)
  next
    case (OpBuffer n)
    with assms deliver_frame(3,5) [of env n s] show ?thesis
      by (auto simp: deliver_def buffer_def Let_def flushLocked_eq split: if_splits)
  next
    case OpFlush
    with assms flushLocked_frame(3,5) [of env s] show ?thesis
      by (auto simp: flush_def flushLocked_eq split: if_splits)
  next
    case OpClose
    show ?thesis
    proof (cases "flushLocked env s")
      case (Inl ps)
      with OpClose assms flushLocked_frame(3,5) [of env s] show ?thesis
        by (cases ps) (auto simp: Close_def flushLocked_eq split: if_splits)
    next
      case (Inr f)
      with OpClose assms flushLocked_Inr(3,5) [OF Inr] show ?thesis
        by (cases "stopped s") (simp_all add: Close_def Let_def)
    qed
qed

lemma exec_channel:
  assumes "chanClosed s = stopped s"
  shows "chanClosed (stateOf (exec env ops s)) = stopped (stateOf (exec env ops s)) \<and>
        (\<forall>p s'. exec env ops s = Inl (p, s') \<longrightarrow> p = MakeSliceCapOutOfRange)"
  using assms
proof (induction ops arbitrary: s)
  case Nil
  then show ?case by simp
next
  case (Cons x xs)
  note st = step_channel [OF Cons.prems, of env x]
  show ?case
  proof (cases "step env x s")
    case (Inl ps)
    with st show ?thesis by (cases ps) simp
  next
    case (Inr s1)
    with st have "chanClosed s1 = stopped s1" by simp
    from Cons.IH [OF this] Inr show ?thesis by simp
  qed
qed

text \<open>
  Claim C10. \<^verbatim>\<open>Import\<close> with no record on a session that is not stopped returns nil and
  the session as it was: nothing is sent on the channel, and the buffer, the set of
  imported sources, the imported hashes and the errors keep their values.
\<close>

theorem Import_no_items: "\<not> stopped s \<Longrightarrow> Import [] s = Inr (None, s)"
  by (simp add: Import_def)

theorem Import_no_items_witness:
  "\<not> stopped (New 10 1000 sampleInfo) \<and>
   Import [] (New 10 1000 sampleInfo) = Inr (None, New 10 1000 sampleInfo)"
proof -
  have h: "\<not> stopped (New 10 1000 sampleInfo)" by (simp add: New_def)
  from Import_no_items [OF h] h show ?thesis by simp
qed

text \<open>
  Claim C5. Once \<^verbatim>\<open>Close\<close> has returned, whatever else happens to the session afterwards,
  every \<^verbatim>\<open>Import\<close> returns \<^verbatim>\<open>ErrImportClosed\<close> and the session as it was: nothing is
  sent on the channel or buffered, and the imported hashes, the imported sources and the
  errors are the same.
\<close>

theorem Import_after_Close:
  assumes "Close env s = Inr (r, s1)" and "exec env ops s1 = Inr s2"
  shows "Import items s2 = Inr (Some ErrImportClosed, s2)"
proof -
  from Close_marks_stopped [OF assms(1)] have "stopped s1" .
  from exec_keeps_stopped [OF this assms(2)] have "stopped s2" .
  then show ?thesis by (rule Import_stopped)
qed

theorem Import_after_Close_witness:
  "Close envOk (New 10 1000 sampleInfo) =
     Inr (None, (New 10 1000 sampleInfo)\<lparr>stopped := True, ctxDone := True, chanClosed := True\<rparr>) \<and>
   exec envOk [OpImport [sampleMovie], OpFlush]
     ((New 10 1000 sampleInfo)\<lparr>stopped := True, ctxDone := True, chanClosed := True\<rparr>) =
     Inr ((New 10 1000 sampleInfo)\<lparr>stopped := True, ctxDone := True, chanClosed := True\<rparr>) \<and>
   Import [sampleMovie]
     ((New 10 1000 sampleInfo)\<lparr>stopped := True, ctxDone := True, chanClosed := True\<rparr>) =
     Inr (Some ErrImportClosed,
          (New 10 1000 sampleInfo)\<lparr>stopped := True, ctxDone := True, chanClosed := True\<rparr>)"
proof -
  let ?s = "New 10 1000 sampleInfo"
  let ?c = "?s\<lparr>stopped := True, ctxDone := True, chanClosed := True\<rparr>"
  have c: "Close envOk ?s = Inr (None, ?c)"
    by (simp add: Close_def flushLocked_def New_def OrNil_def IsNil_def Let_def)
  have e: "exec envOk [OpImport [sampleMovie], OpFlush] ?c = Inr ?c"
    by (simp add: Import_def flush_def flushLocked_def New_def)
  from Import_after_Close [OF c e, of "[sampleMovie]"] c e show ?thesis by simp
qed

section \<open>Bookkeeping of a batch\<close>

text \<open>The four ways a batch can end.\<close>

lemma persistItems_sources_failed:
  assumes "newSources s items \<noteq> []"
    and "respond env (calls s) (CreateSources (newSources s items)) = Some e"
  shows "persistItems env items s =
    (Some e, s\<lparr>calls := calls s @ [(CreateSources (newSources s items), Some e)]\<rparr>)"
  using assms by (simp add: persistItems_eq createSources_cases)

lemma persistItems_torrents_failed:
  assumes "createSources env (newSources s items) s = (None, s1)"
    and "respond env (calls s1) (CreateTorrents (batchTorrents s items)) = Some e"
  shows "persistItems env items s =
    (Some e, s1\<lparr>calls := calls s1 @ [(CreateTorrents (batchTorrents s items), Some e)]\<rparr>)"
  using assms by (simp add: persistItems_eq createTorrents_cases Let_def)

lemma persistItems_publish_failed:
  assumes "createSources env (newSources s items) s = (None, s1)"
    and "respond env (calls s1) (CreateTorrents (batchTorrents s items)) = None"
    and "respond env (calls s1 @ [(CreateTorrents (batchTorrents s items), None)])
           (Publish (batchHashes s items)) = Some e"
  shows "persistItems env items s =
    (Some e, s1\<lparr>calls := calls s1 @ [(CreateTorrents (batchTorrents s items), None),
                                       (Publish (batchHashes s items), Some e)]\<rparr>)"
  using assms by (simp add: persistItems_eq createTorrents_cases Let_def)

lemma persistItems_succeeded:
  assumes "createSources env (newSources s items) s = (None, s1)"
    and "respond env (calls s1) (CreateTorrents (batchTorrents s items)) = None"
    and "respond env (calls s1 @ [(CreateTorrents (batchTorrents s items), None)])
           (Publish (batchHashes s items)) = None"
  shows "persistItems env items s =
    (None, s1\<lparr>calls := calls s1 @ [(CreateTorrents (batchTorrents s items), None),
                                    (Publish (batchHashes s items), None)],
              importedHashes := importedHashes s1 @ batchHashes s items\<rparr>)"
  using assms by (simp add: persistItems_eq createTorrents_cases Let_def)

lemma createSources_None:
  assumes "createSources env sources s = (None, s1)"
  shows "s1 = (if sources = [] then s
               else s\<lparr>calls := calls s @ [(CreateSources sources, None)],
                      importedSources := importedSources s \<union> Key ` set sources\<rparr>)"
    and "sources \<noteq> [] \<longrightarrow> respond env (calls s) (CreateSources sources) = None"
  using assms by (auto simp: createSources_cases split: if_splits)

lemma createSources_outcome:
  obtains (failed) e where "sources \<noteq> []" "respond env (calls s) (CreateSources sources) = Some e"
  | (passed) s1 where "createSources env sources s = (None, s1)"
  by (cases "sources = []"; cases "respond env (calls s) (CreateSources sources)")
     (auto simp: createSources_cases)

text \<open>
  Claim C1, as the code has it. The persister returns nil exactly when every call it made
  succeeded (the insert of the new sources, if there were any to insert, the upsert and the
  notification). The fingerprints of the batch are appended to the imported hashes exactly
  then, and on any failure the imported hashes stay as they were. The sources of the batch
  are marked as imported exactly when the insert of the new sources succeeded, whether or
  not the upsert and the notification succeed afterwards; if the insert failed or was not
  made, the set of imported sources stays as it was.
\<close>

theorem persistItems_bookkeeping:
  "(fst (persistItems env items s) = None \<longleftrightarrow>
      (newSources s items = [] \<or>
       (CreateSources (newSources s items), None)
          \<in> set (newCalls s (snd (persistItems env items s)))) \<and>
      (CreateTorrents (batchTorrents s items), None)
          \<in> set (newCalls s (snd (persistItems env items s))) \<and>
      (Publish (batchHashes s items), None)
          \<in> set (newCalls s (snd (persistItems env items s)))) \<and>
   importedHashes (snd (persistItems env items s)) =
     (if fst (persistItems env items s) = None
      then importedHashes s @ map Item.InfoHash items else importedHashes s) \<and>
   importedSources (snd (persistItems env items s)) =
     (if (CreateSources (newSources s items), None)
           \<in> set (newCalls s (snd (persistItems env items s)))
      then importedSources s \<union> Item.Source ` set items else importedSources s)"
proof (cases rule: createSources_outcome [of "newSources s items" env s])
  case (failed e)
  from persistItems_sources_failed [where env = env and s = s and items = items, OF failed] show ?thesis
    by (simp add: newCalls_def)
next
  case (passed s1)
  note s1 = createSources_None [OF passed]
  have keys: "importedSources s \<union> Key ` set (newSources s items)
               = importedSources s \<union> Item.Source ` set items"
    using newSources_keys(3) [of s items] by auto
  show ?thesis
  proof (cases "respond env (calls s1) (CreateTorrents (batchTorrents s items))")
    case (Some e)
    from persistItems_torrents_failed [where env = env and s = s and items = items, OF passed Some] s1 keys show ?thesis
      by (simp add: newCalls_def)
  next
    case None
    show ?thesis
    proof (cases "respond env (calls s1 @ [(CreateTorrents (batchTorrents s items), None)])
                    (Publish (batchHashes s items))")
      case (Some e)
      from persistItems_publish_failed [where env = env and s = s and items = items, OF passed None Some] s1 keys show ?thesis
        by (simp add: newCalls_def)
    next
      case n: None
      from persistItems_succeeded [where env = env and s = s and items = items, OF passed None n] s1 keys show ?thesis
        by (simp add: newCalls_def batchHashes_eq)
    qed
  qed
qed

lemma sample_newSources:
  "newSources (New bsize wait nfo) [sampleItem ''rss'' h] =
     [\<lparr>Key = ''rss'', TorrentSource.Name = ''rss''\<rparr>]"
  by (simp add: newSources_def New_def sampleItem_def)

text \<open>
  It is not so that a failed batch leaves the set of imported sources alone: when the
  upsert fails after the insert of a new source, the source is already marked.
\<close>

theorem persistItems_bookkeeping_counterexample:
  "fst (persistItems envFailTorrents [sampleItem ''rss'' [9]] (New 10 1000 sampleInfo))
     = Some (CollaboratorError ''upsert'') \<and>
   importedSources (New 10 1000 sampleInfo) = {} \<and>
   importedSources
     (snd (persistItems envFailTorrents [sampleItem ''rss'' [9]] (New 10 1000 sampleInfo)))
     = {''rss''}"
proof -
  let ?s = "New 10 1000 sampleInfo"
  let ?src = "[\<lparr>Key = ''rss'', TorrentSource.Name = ''rss''\<rparr>]"
  have c: "createSources envFailTorrents (newSources ?s [sampleItem ''rss'' [9]]) ?s =
      (None, ?s\<lparr>calls := calls ?s @ [(CreateSources ?src, None)],
                 importedSources := importedSources ?s \<union> Key ` set ?src\<rparr>)"
    by (simp add: sample_newSources createSources_cases envFailTorrents_def)
  have t: "respond envFailTorrents c (CreateTorrents ts) = Some (CollaboratorError ''upsert'')" for c ts
    by (simp add: envFailTorrents_def)
  from persistItems_torrents_failed [where env = envFailTorrents, OF c t]
  show ?thesis by (simp add: New_def)
qed

theorem persistItems_bookkeeping_witness:
  "fst (persistItems envFailPublish [sampleItem ''rss'' [9]] (New 10 1000 sampleInfo)) \<noteq> None \<and>
   (CreateSources (newSources (New 10 1000 sampleInfo) [sampleItem ''rss'' [9]]), None)
     \<in> set (newCalls (New 10 1000 sampleInfo)
          (snd (persistItems envFailPublish [sampleItem ''rss'' [9]] (New 10 1000 sampleInfo)))) \<and>
   importedHashes
     (snd (persistItems envFailPublish [sampleItem ''rss'' [9]] (New 10 1000 sampleInfo))) = [] \<and>
   importedSources
     (snd (persistItems envFailPublish [sampleItem ''rss'' [9]] (New 10 1000 sampleInfo)))
     = {''rss''}"
proof -
  let ?s = "New 10 1000 sampleInfo"
  let ?items = "[sampleItem ''rss'' [9]]"
  let ?src = "[\<lparr>Key = ''rss'', TorrentSource.Name = ''rss''\<rparr>]"
  have c: "createSources envFailPublish (newSources ?s ?items) ?s =
      (None, ?s\<lparr>calls := calls ?s @ [(CreateSources ?src, None)],
                 importedSources := importedSources ?s \<union> Key ` set ?src\<rparr>)"
    by (simp add: sample_newSources createSources_cases envFailPublish_def)
  have t: "respond envFailPublish c (CreateTorrents ts) = None" for c ts
    by (simp add: envFailPublish_def)
  have p: "respond envFailPublish c (Publish hs) = Some (CollaboratorError ''publish'')" for c hs
    by (simp add: envFailPublish_def)
  have r: "persistItems envFailPublish ?items ?s =
    (Some (CollaboratorError ''publish''),
     ?s\<lparr>calls := [(CreateSources ?src, None), (CreateTorrents (batchTorrents ?s ?items), None),
                   (Publish (batchHashes ?s ?items), Some (CollaboratorError ''publish''))],
         importedSources := {''rss''}\<rparr>)"
    using persistItems_publish_failed [where env = envFailPublish, OF c t p]
    by (simp add: New_def)
  have f: "fst (persistItems envFailPublish ?items ?s) \<noteq> None"
    "importedHashes (snd (persistItems envFailPublish ?items ?s)) = []"
    "importedSources (snd (persistItems envFailPublish ?items ?s)) = {''rss''}"
    "(CreateSources (newSources ?s ?items), None)
       \<in> set (newCalls ?s (snd (persistItems envFailPublish ?items ?s)))"
    by (simp_all add: r newCalls_def sample_newSources, simp_all add: New_def)
  from persistItems_bookkeeping [of envFailPublish ?items ?s] f
  show ?thesis
    by simp
qed

section \<open>A failed notification\<close>

lemma createSources_passed:
  assumes "newSources s items \<noteq> [] \<longrightarrow>
             respond env (calls s) (CreateSources (newSources s items)) = None"
  shows "createSources env (newSources s items) s =
    (None, s\<lparr>calls := calls s @ insertLog s items,
              importedSources := importedSources s \<union> Item.Source ` set items\<rparr>)"
proof (cases "newSources s items = []")
  case True
  from newSources_keys(3) [of s items] True
  have "importedSources s \<union> Item.Source ` set items = importedSources s" by auto
  with True show ?thesis
    by (simp add: createSources_cases insertLog_def)
next
  case False
  from newSources_keys(3) [of s items]
  have "importedSources s \<union> Key ` set (newSources s items)
          = importedSources s \<union> Item.Source ` set items" by auto
  with False assms show ?thesis
    by (simp add: createSources_cases insertLog_def)
qed

text \<open>
  Claim C4. Take a flush of a buffer that is not empty in which the insert of the new
  sources succeeds (or there is none to insert), the upsert of the torrents succeeds and
  the notification fails with an error. Then the persister returns that error. Whether the
  flush then returns or panics in \<^verbatim>\<open>make\<close>, the session it leaves is this: the log of
  the flush is the successful insert (if any), the successful upsert and the failed
  notification, and nothing after them, so no call takes the two writes back, and the
  sources of the batch are marked as imported; the error list has grown by exactly one
  entry, which pairs the error with the records of the buffer; and the imported hashes are
  as before.
\<close>

theorem publish_failure_recorded:
  assumes "itemBuffer s \<noteq> []"
    and "newSources s (itemBuffer s) \<noteq> [] \<longrightarrow>
           respond env (calls s) (CreateSources (newSources s (itemBuffer s))) = None"
    and "respond env (calls s @ insertLog s (itemBuffer s))
           (CreateTorrents (map (createTorrentModel (info s)) (itemBuffer s))) = None"
    and "respond env (calls s @ insertLog s (itemBuffer s)
                @ [(CreateTorrents (map (createTorrentModel (info s)) (itemBuffer s)), None)])
           (Publish (map Item.InfoHash (itemBuffer s))) = Some e"
  shows "fst (persistItems env (itemBuffer s) s) = Some e \<and>
         stateOf (flushLocked env s) =
           s\<lparr>calls := calls s @ insertLog s (itemBuffer s)
                  @ [(CreateTorrents (map (createTorrentModel (info s)) (itemBuffer s)), None),
                     (Publish (map Item.InfoHash (itemBuffer s)), Some e)],
              importedSources := importedSources s \<union> Item.Source ` set (itemBuffer s),
              errors := errors s @ [\<lparr>Items = itemBuffer s, Err = e\<rparr>],
              itemBuffer := (if capOk env s then [] else itemBuffer s)\<rparr> \<and>
         (flushLocked env s = Inr (stateOf (flushLocked env s)) \<or>
          flushLocked env s = Inl (MakeSliceCapOutOfRange, stateOf (flushLocked env s))) \<and>
         errors (stateOf (flushLocked env s)) = errors s @ [\<lparr>Items = itemBuffer s, Err = e\<rparr>] \<and>
         importedHashes (stateOf (flushLocked env s)) = importedHashes s"
proof -
  let ?items = "itemBuffer s"
  let ?s1 = "s\<lparr>calls := calls s @ insertLog s ?items,
               importedSources := importedSources s \<union> Item.Source ` set ?items\<rparr>"
  have c: "createSources env (newSources s ?items) s = (None, ?s1)"
    using assms(2) by (rule createSources_passed)
  have t: "respond env (calls ?s1) (CreateTorrents (batchTorrents s ?items)) = None"
    using assms(3) by (simp add: batchTorrents_eq)
  have p: "respond env (calls ?s1 @ [(CreateTorrents (batchTorrents s ?items), None)])
             (Publish (batchHashes s ?items)) = Some e"
    using assms(4) by (simp add: batchTorrents_eq batchHashes_eq)
  have r: "persistItems env ?items s =
      (Some e, ?s1\<lparr>calls := calls ?s1 @ [(CreateTorrents (batchTorrents s ?items), None),
                                         (Publish (batchHashes s ?items), Some e)]\<rparr>)"
    by (rule persistItems_publish_failed [where env = env, OF c t p])
  have l: "persisted env s =
           s\<lparr>calls := calls s @ insertLog s ?items
                  @ [(CreateTorrents (map (createTorrentModel (info s)) ?items), None),
                     (Publish (map Item.InfoHash ?items), Some e)],
              importedSources := importedSources s \<union> Item.Source ` set ?items,
              errors := errors s @ [\<lparr>Items = ?items, Err = e\<rparr>]\<rparr>"
    by (simp add: persisted_def r batchTorrents_eq batchHashes_eq)
  have f: "stateOf (flushLocked env s) =
           s\<lparr>calls := calls s @ insertLog s ?items
                  @ [(CreateTorrents (map (createTorrentModel (info s)) ?items), None),
                     (Publish (map Item.InfoHash ?items), Some e)],
              importedSources := importedSources s \<union> Item.Source ` set ?items,
              errors := errors s @ [\<lparr>Items = ?items, Err = e\<rparr>],
              itemBuffer := (if capOk env s then [] else ?items)\<rparr>"
    using assms(1) by (simp add: flushLocked_eq l)
  have o: "flushLocked env s = Inr (stateOf (flushLocked env s)) \<or>
          flushLocked env s = Inl (MakeSliceCapOutOfRange, stateOf (flushLocked env s))"
    by (simp add: flushLocked_eq)
  have "fst (persistItems env ?items s) = Some e" by (simp add: r)
  moreover note f
  moreover note o
  moreover have "errors (stateOf (flushLocked env s)) = errors s @ [\<lparr>Items = ?items, Err = e\<rparr>]"
    by (simp add: f)
  moreover have "importedHashes (stateOf (flushLocked env s)) = importedHashes s"
    by (simp add: f)
  ultimately show ?thesis by (intro conjI)
qed

theorem publish_failure_recorded_witness:
  "stateOf (flushLocked envFailPublish
     ((New 10 1000 sampleInfo)\<lparr>itemBuffer := [sampleItem ''rss'' [9]]\<rparr>)) =
   (New 10 1000 sampleInfo)
     \<lparr>importedSources := {''rss''},
      errors := [\<lparr>Items = [sampleItem ''rss'' [9]], Err = CollaboratorError ''publish''\<rparr>],
      calls := [(CreateSources [\<lparr>Key = ''rss'', TorrentSource.Name = ''rss''\<rparr>], None),
                (CreateTorrents [createTorrentModel sampleInfo (sampleItem ''rss'' [9])], None),
                (Publish [[9]], Some (CollaboratorError ''publish''))]\<rparr>"
proof -
  let ?s = "(New 10 1000 sampleInfo)\<lparr>itemBuffer := [sampleItem ''rss'' [9]]\<rparr>"
  have b: "itemBuffer ?s = [sampleItem ''rss'' [9]]" by simp
  have n: "newSources ?s [sampleItem ''rss'' [9]] = [\<lparr>Key = ''rss'', TorrentSource.Name = ''rss''\<rparr>]"
    by (simp add: newSources_def New_def sampleItem_def)
  have h1: "itemBuffer ?s \<noteq> []" by simp
  have h2: "newSources ?s (itemBuffer ?s) \<noteq> [] \<longrightarrow>
           respond envFailPublish (calls ?s) (CreateSources (newSources ?s (itemBuffer ?s))) = None"
    by (simp add: envFailPublish_def)
  have h3: "respond envFailPublish (calls ?s @ insertLog ?s (itemBuffer ?s))
           (CreateTorrents (map (createTorrentModel (info ?s)) (itemBuffer ?s))) = None"
    by (simp add: envFailPublish_def)
  have h4: "respond envFailPublish (calls ?s @ insertLog ?s (itemBuffer ?s)
                @ [(CreateTorrents (map (createTorrentModel (info ?s)) (itemBuffer ?s)), None)])
           (Publish (map Item.InfoHash (itemBuffer ?s))) = Some (CollaboratorError ''publish'')"
    by (simp add: envFailPublish_def)
  have i: "insertLog ?s [sampleItem ''rss'' [9]]
             = [(CreateSources [\<lparr>Key = ''rss'', TorrentSource.Name = ''rss''\<rparr>], None)]"
    by (simp add: insertLog_def n)
  have x: "Item.Source (sampleItem ''rss'' [9]) = ''rss''" "Item.InfoHash (sampleItem ''rss'' [9]) = [9]"
    by (simp_all add: sampleItem_def)
  have k: "capOk envFailPublish ?s"
    by (simp add: capOk_def envFailPublish_def sampleMaxCap_def New_def)
  from publish_failure_recorded [OF h1 h2 h3 h4]
  have "stateOf (flushLocked envFailPublish ?s) =
           ?s\<lparr>calls := calls ?s @ insertLog ?s (itemBuffer ?s)
                  @ [(CreateTorrents (map (createTorrentModel (info ?s)) (itemBuffer ?s)), None),
                     (Publish (map Item.InfoHash (itemBuffer ?s)), Some (CollaboratorError ''publish''))],
              importedSources := importedSources ?s \<union> Item.Source ` set (itemBuffer ?s),
              errors := errors ?s @ [\<lparr>Items = itemBuffer ?s, Err = CollaboratorError ''publish''\<rparr>],
              itemBuffer := (if capOk envFailPublish ?s then [] else itemBuffer ?s)\<rparr>"
    by blast
  then show ?thesis
    unfolding b i by (simp add: x k, simp add: New_def)
qed

section \<open>Inserts of a source across the batches of a session\<close>

lemma issuedFor_append: "issuedFor k (a @ b) = issuedFor k a @ issuedFor k b"
  by (simp add: issuedFor_def)

lemma persistItems_log:
  "calls (snd (persistItems env items s)) = calls s @ newCalls s (snd (persistItems env items s))"
  "issuedFor k (newCalls s (snd (persistItems env items s))) =
     (if k \<in> Key ` set (newSources s items)
      then [(CreateSources (newSources s items), respond env (calls s) (CreateSources (newSources s items)))]
      else [])"
  "importedSources (snd (persistItems env items s)) =
     (if newSources s items \<noteq> [] \<and> respond env (calls s) (CreateSources (newSources s items)) = None
      then importedSources s \<union> Key ` set (newSources s items) else importedSources s)"
  "distinctInserts (newCalls s (snd (persistItems env items s)))"
proof -
  let ?P = "persistItems env items s"
  let ?srcs = "newSources s items"
  have d: "distinct (map Key ?srcs)" by (rule newSources_keys(1))
  have "calls (snd ?P) = calls s @ newCalls s (snd ?P) \<and>
    issuedFor k (newCalls s (snd ?P)) =
     (if k \<in> Key ` set ?srcs
      then [(CreateSources ?srcs, respond env (calls s) (CreateSources ?srcs))] else []) \<and>
    importedSources (snd ?P) =
     (if ?srcs \<noteq> [] \<and> respond env (calls s) (CreateSources ?srcs) = None
      then importedSources s \<union> Key ` set ?srcs else importedSources s) \<and>
    distinctInserts (newCalls s (snd ?P))"
  proof (cases rule: createSources_outcome [of ?srcs env s])
    case (failed e)
    from persistItems_sources_failed [where env = env and s = s and items = items, OF failed]
      failed d
    show ?thesis
      by (simp add: newCalls_def issuedFor_def distinctInserts_def)
  next
    case (passed s1)
    note s1 = createSources_None [OF passed]
    show ?thesis
    proof (cases "respond env (calls s1) (CreateTorrents (batchTorrents s items))")
      case (Some e)
      from persistItems_torrents_failed [where env = env and s = s and items = items, OF passed Some]
        s1 d
      show ?thesis
        by (simp add: newCalls_def issuedFor_def distinctInserts_def)
    next
      case None
      show ?thesis
      proof (cases "respond env (calls s1 @ [(CreateTorrents (batchTorrents s items), None)])
                      (Publish (batchHashes s items))")
        case (Some e)
        from persistItems_publish_failed [where env = env and s = s and items = items, OF passed None Some]
          s1 d
        show ?thesis
          by (simp add: newCalls_def issuedFor_def distinctInserts_def)
      next
        case n: None
        from persistItems_succeeded [where env = env and s = s and items = items, OF passed None n]
          s1 d
        show ?thesis
          by (simp add: newCalls_def issuedFor_def distinctInserts_def)
      qed
    qed
  qed
  then show
    "calls (snd ?P) = calls s @ newCalls s (snd ?P)"
    "issuedFor k (newCalls s (snd ?P)) =
     (if k \<in> Key ` set ?srcs
      then [(CreateSources ?srcs, respond env (calls s) (CreateSources ?srcs))] else [])"
    "importedSources (snd ?P) =
     (if ?srcs \<noteq> [] \<and> respond env (calls s) (CreateSources ?srcs) = None
      then importedSources s \<union> Key ` set ?srcs else importedSources s)"
    "distinctInserts (newCalls s (snd ?P))"
    by blast+
qed


lemma sendItems_frame:
  "sendItems items s = Inr s1 \<Longrightarrow> calls s1 = calls s \<and> importedSources s1 = importedSources s"
  by (induction items arbitrary: s) (auto split: if_splits)

lemma distinctInserts_append:
  "distinctInserts (a @ b) \<longleftrightarrow> distinctInserts a \<and> distinctInserts b"
  by (auto simp: distinctInserts_def)

lemma sourceInv_cong:
  "calls s' = calls s \<Longrightarrow> importedSources s' = importedSources s \<Longrightarrow>
   sourceInv k s' = sourceInv k s"
  by (simp add: sourceInv_def)

lemma sourceInv_persistItems:
  assumes "sourceInv k s"
  shows "sourceInv k (snd (persistItems env items s))"
proof -
  let ?s' = "snd (persistItems env items s)"
  let ?srcs = "newSources s items"
  let ?r0 = "respond env (calls s) (CreateSources ?srcs)"
  let ?old = "issuedFor k (calls s)"
  note log =
    persistItems_log(1) [where env = env and items = items and s = s]
    persistItems_log(2) [where env = env and items = items and s = s and k = k]
    persistItems_log(3) [where env = env and items = items and s = s]
    persistItems_log(4) [where env = env and items = items and s = s]
  from assms have d: "distinctInserts (calls s)"
    and b: "\<forall>e \<in> set (butlast ?old). \<not> succeeded e"
    and i: "k \<in> importedSources s \<longleftrightarrow> (\<exists>e \<in> set ?old. succeeded e)"
    by (simp_all add: sourceInv_def)
  have d': "distinctInserts (calls ?s')"
    using d log(4) by (subst log(1)) (simp add: distinctInserts_append)
  have iss: "issuedFor k (calls ?s') =
      ?old @ (if k \<in> Key ` set ?srcs then [(CreateSources ?srcs, ?r0)] else [])"
    by (subst log(1)) (simp only: issuedFor_append log(2))
  show ?thesis
  proof (cases "k \<in> Key ` set ?srcs")
    case True
    with newSources_keys(2) [of s items] have "k \<notin> importedSources s" by blast
    with i have none: "\<forall>e \<in> set ?old. \<not> succeeded e" by blast
    from True have ne: "?srcs \<noteq> []" by auto
    have imp': "k \<in> importedSources ?s' \<longleftrightarrow> ?r0 = None"
      using True ne \<open>k \<notin> importedSources s\<close> by (simp add: log(3))
    from True iss have iss': "issuedFor k (calls ?s') = ?old @ [(CreateSources ?srcs, ?r0)]"
      by simp
    have "\<forall>e \<in> set (butlast (issuedFor k (calls ?s'))). \<not> succeeded e"
      using none by (simp add: iss')
    moreover have "k \<in> importedSources ?s' \<longleftrightarrow> (\<exists>e \<in> set (issuedFor k (calls ?s')). succeeded e)"
      using none imp' by (auto simp: iss' succeeded_def)
    ultimately show ?thesis using d' by (simp add: sourceInv_def)
  next
    case False
    with iss have iss': "issuedFor k (calls ?s') = ?old" by simp
    have "k \<in> importedSources ?s' \<longleftrightarrow> k \<in> importedSources s"
      using False by (simp add: log(3))
    with b i d' show ?thesis by (simp add: sourceInv_def iss')
  qed
qed

lemma sourceInv_persisted: "sourceInv k s \<Longrightarrow> sourceInv k (persisted env s)"
proof -
  assume "sourceInv k s"
  then have "sourceInv k (snd (persistItems env (itemBuffer s) s))"
    by (rule sourceInv_persistItems)
  moreover have "sourceInv k (persisted env s)
      = sourceInv k (snd (persistItems env (itemBuffer s) s))"
    by (intro sourceInv_cong) (simp_all add: persisted_calls)
  ultimately show ?thesis by simp
qed

lemma sourceInv_flushLocked:
  assumes "sourceInv k s"
  shows "sourceInv k (stateOf (flushLocked env s))"
proof -
  have "sourceInv k ((persisted env s)\<lparr>itemBuffer := []\<rparr>) = sourceInv k (persisted env s)"
    by (rule sourceInv_cong) simp_all
  with sourceInv_persisted [OF assms, of env] assms show ?thesis
    by (simp add: flushLocked_eq)
qed

lemma sourceInv_buffer:
  assumes "sourceInv k s"
  shows "sourceInv k (stateOf (buffer env item s))"
proof -
  have "sourceInv k (s\<lparr>itemBuffer := itemBuffer s @ [item]\<rparr>) = sourceInv k s"
    by (rule sourceInv_cong) simp_all
  with assms have "sourceInv k (s\<lparr>itemBuffer := itemBuffer s @ [item]\<rparr>)" by simp
  then show ?thesis
    by (simp add: buffer_def Let_def sourceInv_flushLocked)
qed

lemma sourceInv_deliver:
  assumes "sourceInv k s"
  shows "sourceInv k (stateOf (deliver env n s))"
proof -
  have "sourceInv k (s\<lparr>itemChan := take n (itemChan s) @ drop (Suc n) (itemChan s)\<rparr>)
          = sourceInv k s"
    by (rule sourceInv_cong) simp_all
  with assms show ?thesis
    by (simp add: deliver_def sourceInv_buffer)
qed

lemma sourceInv_step:
  assumes "sourceInv k s" and "step env x s = Inr s1"
  shows "sourceInv k s1"
proof (cases x)
  case (OpImport items)
  with assms(2) have "calls s1 = calls s \<and> importedSources s1 = importedSources s"
    by (cases "stopped s"; cases "sendItems items s")
       (auto simp: Import_def sendItems_frame split: sum.splits)
  with assms(1) show ?thesis by (simp add: sourceInv_def)
next
  case (OpBuffer n)
  with assms(2) have "stateOf (deliver env n s) = s1" by simp
  with sourceInv_deliver [OF assms(1), of env n] show ?thesis by simp
next
  case OpFlush
  with assms(2) have "stateOf (flushLocked env s) = s1" by (simp add: flush_def)
  with sourceInv_flushLocked [OF assms(1), of env] show ?thesis by simp
next
  case OpClose
  show ?thesis
  proof (cases "flushLocked env s")
    case (Inl ps)
    with OpClose assms(2) show ?thesis by (simp add: Close_def)
  next
    case (Inr f)
    with sourceInv_flushLocked [OF assms(1), of env] have f: "sourceInv k f" by simp
    have "sourceInv k (f\<lparr>stopped := True, ctxDone := True, chanClosed := True\<rparr>) = sourceInv k f"
      by (rule sourceInv_cong) simp_all
    with f Inr OpClose assms(2) show ?thesis
      by (auto simp: Close_def Let_def split: if_splits)
  qed
qed

lemma sourceInv_exec:
  "sourceInv k s \<Longrightarrow> exec env ops s = Inr s1 \<Longrightarrow> sourceInv k s1"
proof (induction ops arbitrary: s)
  case Nil
  then show ?case by simp
next
  case (Cons x xs)
  from Cons.prems(2) obtain s' where st: "step env x s = Inr s'" and ex: "exec env xs s' = Inr s1"
    by (auto split: sum.splits)
  from sourceInv_step [OF Cons.prems(1) st] have "sourceInv k s'" .
  from Cons.IH [OF this ex] show ?case .
qed

lemma sourceInv_New: "sourceInv k (New bsize wait nfo)"
  by (simp add: sourceInv_def New_def distinctInserts_def issuedFor_def)


lemma filter_last_only:
  assumes "\<forall>e \<in> set (butlast xs). \<not> P e"
  shows "length (filter P xs) \<le> 1"
proof (cases "xs = []")
  case True
  then show ?thesis by simp
next
  case False
  then have "xs = butlast xs @ [last xs]" by simp
  then have "filter P xs = filter P (butlast xs) @ filter P [last xs]"
    by (metis filter_append)
  moreover from assms have "filter P (butlast xs) = []" by (simp add: filter_empty_conv)
  ultimately show ?thesis by simp
qed

text \<open>
  Claim C2, as the code has it. In every state a session can reach from \<^verbatim>\<open>New\<close>, and for
  every source key: no insert of sources lists a key twice; of the inserts that list the
  key, every one but the last has failed, so at most one of them has succeeded and none was
  made after a successful one; the key is in the set of imported sources exactly when one
  of them has succeeded; and the insert of any further batch lists each source of the
  batch that is not yet imported once, and no other key.
\<close>

theorem insert_once_successful:
  assumes "exec env ops (New bsize wait nfo) = Inr s"
  shows "(\<forall>sources r. (CreateSources sources, r) \<in> set (calls s) \<longrightarrow> distinct (map Key sources)) \<and>
         (\<forall>e \<in> set (butlast (issuedFor k (calls s))). \<not> succeeded e) \<and>
         length (filter succeeded (issuedFor k (calls s))) \<le> 1 \<and>
         (k \<in> importedSources s \<longleftrightarrow> (\<exists>e \<in> set (issuedFor k (calls s)). succeeded e)) \<and>
         (\<forall>items. distinct (map Key (newSources s items)) \<and>
                  Key ` set (newSources s items) = Item.Source ` set items - importedSources s)"
proof -
  from sourceInv_exec [OF sourceInv_New assms] have inv: "sourceInv k s" .
  then have b: "\<forall>e \<in> set (butlast (issuedFor k (calls s))). \<not> succeeded e"
    by (simp add: sourceInv_def)
  from inv have "\<forall>sources r. (CreateSources sources, r) \<in> set (calls s) \<longrightarrow> distinct (map Key sources)"
    by (simp add: sourceInv_def distinctInserts_def)
  moreover note b
  moreover from b have "length (filter succeeded (issuedFor k (calls s))) \<le> 1"
    by (rule filter_last_only)
  moreover from inv have "k \<in> importedSources s \<longleftrightarrow> (\<exists>e \<in> set (issuedFor k (calls s)). succeeded e)"
    by (simp add: sourceInv_def)
  moreover have "\<forall>items. distinct (map Key (newSources s items)) \<and>
                  Key ` set (newSources s items) = Item.Source ` set items - importedSources s"
    by (simp add: newSources_keys)
  ultimately show ?thesis by (intro conjI)
qed

text \<open>
  The insert can list a key more than once across the batches of a session: an insert that
  fails does not mark its keys, and the next batch with the same source lists it again.
  Here the threshold is one record, so each \<^verbatim>\<open>buffer\<close> is one batch.
\<close>

theorem insert_once_counterexample:
  "buffer envFail (sampleItem ''rss'' [9]) (New 1 1000 sampleInfo) =
     Inr ((New 1 1000 sampleInfo)
            \<lparr>errors := [\<lparr>Items = [sampleItem ''rss'' [9]], Err = CollaboratorError ''down''\<rparr>],
             calls := [(CreateSources [\<lparr>Key = ''rss'', TorrentSource.Name = ''rss''\<rparr>],
                          Some (CollaboratorError ''down''))]\<rparr>) \<and>
   buffer envFail (sampleItem ''rss'' [8])
     ((New 1 1000 sampleInfo)
            \<lparr>errors := [\<lparr>Items = [sampleItem ''rss'' [9]], Err = CollaboratorError ''down''\<rparr>],
             calls := [(CreateSources [\<lparr>Key = ''rss'', TorrentSource.Name = ''rss''\<rparr>],
                          Some (CollaboratorError ''down''))]\<rparr>) =
     Inr ((New 1 1000 sampleInfo)
            \<lparr>errors := [\<lparr>Items = [sampleItem ''rss'' [9]], Err = CollaboratorError ''down''\<rparr>,
                        \<lparr>Items = [sampleItem ''rss'' [8]], Err = CollaboratorError ''down''\<rparr>],
             calls := [(CreateSources [\<lparr>Key = ''rss'', TorrentSource.Name = ''rss''\<rparr>],
                          Some (CollaboratorError ''down'')),
                       (CreateSources [\<lparr>Key = ''rss'', TorrentSource.Name = ''rss''\<rparr>],
                          Some (CollaboratorError ''down''))]\<rparr>) \<and>
   issuedFor ''rss''
     [(CreateSources [\<lparr>Key = ''rss'', TorrentSource.Name = ''rss''\<rparr>],
         Some (CollaboratorError ''down'')),
      (CreateSources [\<lparr>Key = ''rss'', TorrentSource.Name = ''rss''\<rparr>],
         Some (CollaboratorError ''down''))] =
     [(CreateSources [\<lparr>Key = ''rss'', TorrentSource.Name = ''rss''\<rparr>],
         Some (CollaboratorError ''down'')),
      (CreateSources [\<lparr>Key = ''rss'', TorrentSource.Name = ''rss''\<rparr>],
         Some (CollaboratorError ''down''))]"
  by (simp add: buffer_def flushLocked_def makeItems_def persistItems_def createSources_def
        perform_def envFail_def sampleMaxCap_def New_def sampleItem_def Let_def issuedFor_def)

lemma sample_run:
  "\<exists>s. exec envFailFirst [OpImport [sampleItem ''rss'' [9]], OpBuffer 0, OpFlush,
           OpImport [sampleItem ''rss'' [8]], OpBuffer 0, OpFlush,
           OpImport [sampleItem ''rss'' [7]], OpBuffer 0, OpFlush] (New 10 1000 sampleInfo) = Inr s
     \<and> issuedFor ''rss'' (calls s) =
         [(CreateSources [\<lparr>Key = ''rss'', TorrentSource.Name = ''rss''\<rparr>],
             Some (CollaboratorError ''first'')),
          (CreateSources [\<lparr>Key = ''rss'', TorrentSource.Name = ''rss''\<rparr>], None)]"
  by (simp add: Import_def deliver_def buffer_def flush_def flushLocked_def makeItems_def
        persistItems_def createSources_def createTorrents_def perform_def markImported_def
        envFailFirst_def sampleMaxCap_def New_def sampleItem_def Let_def issuedFor_def)

theorem insert_once_successful_witness:
  "\<exists>s. exec envFailFirst [OpImport [sampleItem ''rss'' [9]], OpBuffer 0, OpFlush,
           OpImport [sampleItem ''rss'' [8]], OpBuffer 0, OpFlush,
           OpImport [sampleItem ''rss'' [7]], OpBuffer 0, OpFlush] (New 10 1000 sampleInfo) = Inr s
     \<and> issuedFor ''rss'' (calls s) =
         [(CreateSources [\<lparr>Key = ''rss'', TorrentSource.Name = ''rss''\<rparr>],
             Some (CollaboratorError ''first'')),
          (CreateSources [\<lparr>Key = ''rss'', TorrentSource.Name = ''rss''\<rparr>], None)]
     \<and> length (filter succeeded (issuedFor ''rss'' (calls s))) \<le> 1
     \<and> ''rss'' \<in> importedSources s"
proof -
  from sample_run obtain s where
    e: "exec envFailFirst [OpImport [sampleItem ''rss'' [9]], OpBuffer 0, OpFlush,
           OpImport [sampleItem ''rss'' [8]], OpBuffer 0, OpFlush,
           OpImport [sampleItem ''rss'' [7]], OpBuffer 0, OpFlush] (New 10 1000 sampleInfo) = Inr s"
    and i: "issuedFor ''rss'' (calls s) =
         [(CreateSources [\<lparr>Key = ''rss'', TorrentSource.Name = ''rss''\<rparr>],
             Some (CollaboratorError ''first'')),
          (CreateSources [\<lparr>Key = ''rss'', TorrentSource.Name = ''rss''\<rparr>], None)]"
    by blast
  from insert_once_successful [OF e, of "''rss''"]
  have "length (filter succeeded (issuedFor ''rss'' (calls s))) \<le> 1"
    and "''rss'' \<in> importedSources s \<longleftrightarrow> (\<exists>e \<in> set (issuedFor ''rss'' (calls s)). succeeded e)"
    by blast+
  moreover have "\<exists>e \<in> set (issuedFor ''rss'' (calls s)). succeeded e"
    by (simp add: i succeeded_def)
  ultimately show ?thesis using e i by blast
qed

section \<open>The size threshold\<close>

lemma sint_le_uint: "sint (w :: 64 word) \<le> uint w"
proof -
  have "(0::int) \<le> uint w" by simp
  moreover have "- (2 ^ 63) \<le> (0::int)" by simp
  ultimately have "- (2 ^ 63) \<le> uint w" by (rule order_trans [rotated])
  then have "signed_take_bit 63 (uint w) \<le> uint w"
    by (simp only: signed_take_bit_int_less_eq_self_iff)
  then show ?thesis
    by (simp add: sint_uint)
qed

lemma sint_eq_unat:
  assumes "unat (w :: 64 word) < 2 ^ 63"
  shows "sint w = int (unat w)"
proof -
  from assms have "int (unat w) < int (2 ^ 63)"
    by (simp only: of_nat_less_iff)
  then have u: "uint w < 2 ^ 63"
    by (simp only: of_nat_power of_nat_numeral flip: uint_nat)
  have "(0::int) \<le> uint w" by simp
  moreover have "- (2 ^ 63) \<le> (0::int)" by simp
  ultimately have "- (2 ^ 63) \<le> uint w" by (rule order_trans [rotated])
  from this u have "signed_take_bit 63 (uint w) = uint w"
    by (rule signed_take_bit_int_eq_self)
  then have "sint w = uint w"
    by (simp add: sint_uint)
  then show ?thesis by (simp only: uint_nat)
qed

text \<open>
  What \<^verbatim>\<open>buffer\<close> does at the threshold and below it, for a threshold below \<open>2 ^ 63\<close>:
  a record that brings the count to the threshold makes \<^verbatim>\<open>buffer\<close> flush the buffer
  with the record at its end, in the same transition; below the threshold the record is
  only appended.
\<close>

lemma buffer_flushes:
  assumes "unat (bufferSize s) \<le> length (itemBuffer s) + 1"
  shows "buffer env item s = flushLocked env (s\<lparr>itemBuffer := itemBuffer s @ [item]\<rparr>)"
proof -
  have "sint (bufferSize s) \<le> uint (bufferSize s)" by (rule sint_le_uint)
  also have "\<dots> = int (unat (bufferSize s))" by (rule uint_nat)
  also from assms have "\<dots> \<le> int (length (itemBuffer s) + 1)" by (simp only: of_nat_le_iff)
  finally show ?thesis by (simp add: buffer_def Let_def)
qed

lemma buffer_keeps:
  assumes "length (itemBuffer s) + 1 < unat (bufferSize s)"
    and "unat (bufferSize s) < 2 ^ 63"
  shows "buffer env item s = Inr (s\<lparr>itemBuffer := itemBuffer s @ [item]\<rparr>)"
proof -
  from assms(1) have "int (length (itemBuffer s) + 1) < int (unat (bufferSize s))"
    by (simp only: of_nat_less_iff)
  also from assms(2) have "\<dots> = sint (bufferSize s)" by (simp only: sint_eq_unat)
  finally show ?thesis by (simp add: buffer_def Let_def)
qed

text \<open>
  Claim C7 says that below the threshold buffering a record triggers no flush. The code
  breaks this for a threshold of \<open>2 ^ 63\<close> or more, where \<^verbatim>\<open>int(i.bufferSize)\<close> at line
  151 is negative: in a new session with the threshold \<open>2 ^ 63\<close> the first record, one
  record being far below the threshold, is handed to the persister at once, which makes
  its three calls; the flush then panics in \<^verbatim>\<open>make\<close> at line 173.
\<close>

theorem buffer_threshold_wraps:
  "length (itemBuffer (New 9223372036854775808 1000 sampleInfo)) + 1
     < unat (bufferSize (New 9223372036854775808 1000 sampleInfo)) \<and>
   buffer envOk (sampleItem ''rss'' [9]) (New 9223372036854775808 1000 sampleInfo) =
     Inl (MakeSliceCapOutOfRange,
          (New 9223372036854775808 1000 sampleInfo)
            \<lparr>itemBuffer := [sampleItem ''rss'' [9]], importedSources := {''rss''},
             importedHashes := [[9]],
             calls := [(CreateSources [\<lparr>Key = ''rss'', TorrentSource.Name = ''rss''\<rparr>], None),
                       (CreateTorrents [createTorrentModel sampleInfo (sampleItem ''rss'' [9])],
                          None),
                       (Publish [[9]], None)]\<rparr>)"
  by (simp add: buffer_def flushLocked_def makeItems_def persistItems_def createSources_def
        createTorrents_def perform_def markImported_def envOk_def sampleMaxCap_def New_def
        sampleItem_def Let_def)

section \<open>Close after Close\<close>

lemma Close_quiet:
  "stopped s \<Longrightarrow> itemBuffer s = [] \<Longrightarrow> Close env s = Inr (OrNil (errors s), s)"
  by (simp add: Close_def flushLocked_empty)

lemma step_quiet:
  assumes "stopped s" and "itemBuffer s = []" and "itemChan s = []"
  shows "step env x s = Inr s"
proof (cases x)
  case (OpImport items)
  with assms show ?thesis by (simp add: Import_stopped)
next
  case (OpBuffer n)
  with assms show ?thesis by (simp add: deliver_def)
next
  case OpFlush
  with assms show ?thesis by (simp add: flush_def flushLocked_empty)
next
  case OpClose
  with assms show ?thesis by (simp add: Close_quiet)
qed

lemma exec_quiet:
  assumes "stopped s" and "itemBuffer s = []" and "itemChan s = []"
  shows "exec env ops s = Inr s"
  by (induction ops) (simp_all add: step_quiet [OF assms])

text \<open>
  Claim C6, as the code has it. The first \<^verbatim>\<open>Close\<close> of a session flushes the buffer.
  When that flush returns, \<^verbatim>\<open>Close\<close> does not panic; it cancels the context, closes the
  channel and marks the session stopped, and it returns the errors recorded so far, nil
  exactly when there is none (the flush returns when the buffer is empty or \<^verbatim>\<open>make\<close>
  accepts the threshold as a capacity; what \<^verbatim>\<open>Close\<close> does otherwise is left open here). A
  \<^verbatim>\<open>Close\<close> right after it returns the same value and the same session. If no
  \<^verbatim>\<open>buffer\<close> task was in flight at the first \<^verbatim>\<open>Close\<close>, nothing that happens
  afterwards changes the session, so every later \<^verbatim>\<open>Close\<close> returns that value and has
  no effect. In any case a later \<^verbatim>\<open>Close\<close> that finds the buffer empty does not panic,
  returns the errors recorded so far and leaves the session as it is.
\<close>

theorem Close_idempotent:
  assumes "\<not> stopped s" and "\<not> chanClosed s" and "flushLocked env s = Inr f"
  shows "\<exists>r s1. Close env s = Inr (r, s1) \<and>
           s1 = f\<lparr>stopped := True, ctxDone := True, chanClosed := True\<rparr> \<and>
           r = OrNil (errors s1) \<and> (r = None \<longleftrightarrow> errors s1 = []) \<and>
           Close env s1 = Inr (r, s1) \<and>
           (itemChan s = [] \<longrightarrow> (\<forall>ops. exec env ops s1 = Inr s1)) \<and>
           (\<forall>ops s2. exec env ops s1 = Inr s2 \<and> itemBuffer s2 = [] \<longrightarrow>
                     Close env s2 = Inr (OrNil (errors s2), s2))"
proof -
  let ?s1 = "f\<lparr>stopped := True, ctxDone := True, chanClosed := True\<rparr>"
  let ?r = "OrNil (errors ?s1)"
  have c: "Close env s = Inr (?r, ?s1)"
    using Close_open [OF assms] by simp
  have st: "stopped ?s1" and b: "itemBuffer ?s1 = []"
    by (simp_all add: flushLocked_Inr [OF assms(3)])
  have n: "?r = None \<longleftrightarrow> errors ?s1 = []"
    by (simp add: OrNil_def IsNil_def)
  have again: "Close env ?s1 = Inr (?r, ?s1)"
    using st b by (rule Close_quiet)
  have quiet: "itemChan s = [] \<longrightarrow> (\<forall>ops. exec env ops ?s1 = Inr ?s1)"
  proof (intro impI allI)
    fix ops
    assume "itemChan s = []"
    then have "itemChan ?s1 = []" by (simp add: flushLocked_Inr [OF assms(3)])
    with st b show "exec env ops ?s1 = Inr ?s1" by (rule exec_quiet)
  qed
  have later: "\<forall>ops s2. exec env ops ?s1 = Inr s2 \<and> itemBuffer s2 = [] \<longrightarrow>
                     Close env s2 = Inr (OrNil (errors s2), s2)"
  proof (intro allI impI)
    fix ops s2
    assume a: "exec env ops ?s1 = Inr s2 \<and> itemBuffer s2 = []"
    with exec_keeps_stopped [OF st] have "stopped s2" by blast
    with a show "Close env s2 = Inr (OrNil (errors s2), s2)" by (simp add: Close_quiet)
  qed
  show ?thesis
    by (intro exI [of _ ?r] exI [of _ ?s1] conjI c refl n again quiet later)
qed

theorem Close_idempotent_witness:
  "Close envFail ((New 10 1000 sampleInfo)\<lparr>itemBuffer := [sampleItem ''rss'' [9]]\<rparr>) =
     Inr (Some [\<lparr>Items = [sampleItem ''rss'' [9]], Err = CollaboratorError ''down''\<rparr>],
          (New 10 1000 sampleInfo)
            \<lparr>stopped := True, ctxDone := True, chanClosed := True,
             errors := [\<lparr>Items = [sampleItem ''rss'' [9]], Err = CollaboratorError ''down''\<rparr>],
             calls := [(CreateSources [\<lparr>Key = ''rss'', TorrentSource.Name = ''rss''\<rparr>],
                        Some (CollaboratorError ''down''))]\<rparr>) \<and>
   Close envFail
     ((New 10 1000 sampleInfo)
            \<lparr>stopped := True, ctxDone := True, chanClosed := True,
             errors := [\<lparr>Items = [sampleItem ''rss'' [9]], Err = CollaboratorError ''down''\<rparr>],
             calls := [(CreateSources [\<lparr>Key = ''rss'', TorrentSource.Name = ''rss''\<rparr>],
                        Some (CollaboratorError ''down''))]\<rparr>) =
     Inr (Some [\<lparr>Items = [sampleItem ''rss'' [9]], Err = CollaboratorError ''down''\<rparr>],
          (New 10 1000 sampleInfo)
            \<lparr>stopped := True, ctxDone := True, chanClosed := True,
             errors := [\<lparr>Items = [sampleItem ''rss'' [9]], Err = CollaboratorError ''down''\<rparr>],
             calls := [(CreateSources [\<lparr>Key = ''rss'', TorrentSource.Name = ''rss''\<rparr>],
                        Some (CollaboratorError ''down''))]\<rparr>)"
proof -
  let ?s = "(New 10 1000 sampleInfo)\<lparr>itemBuffer := [sampleItem ''rss'' [9]]\<rparr>"
  let ?c = "(New 10 1000 sampleInfo)
            \<lparr>stopped := True, ctxDone := True, chanClosed := True,
             errors := [\<lparr>Items = [sampleItem ''rss'' [9]], Err = CollaboratorError ''down''\<rparr>],
             calls := [(CreateSources [\<lparr>Key = ''rss'', TorrentSource.Name = ''rss''\<rparr>],
                        Some (CollaboratorError ''down''))]\<rparr>"
  let ?f = "(New 10 1000 sampleInfo)
            \<lparr>errors := [\<lparr>Items = [sampleItem ''rss'' [9]], Err = CollaboratorError ''down''\<rparr>],
             calls := [(CreateSources [\<lparr>Key = ''rss'', TorrentSource.Name = ''rss''\<rparr>],
                        Some (CollaboratorError ''down''))]\<rparr>"
  have h: "\<not> stopped ?s" "\<not> chanClosed ?s" by (simp_all add: New_def)
  have fl: "flushLocked envFail ?s = Inr ?f"
    by (simp add: flushLocked_def makeItems_def persistItems_def createSources_def perform_def
          envFail_def sampleMaxCap_def New_def sampleItem_def Let_def)
  have f: "?f\<lparr>stopped := True, ctxDone := True, chanClosed := True\<rparr> = ?c"
    by (simp add: New_def)
  have e: "OrNil (errors ?c) =
      Some [\<lparr>Items = [sampleItem ''rss'' [9]], Err = CollaboratorError ''down''\<rparr>]"
    by (simp add: OrNil_def IsNil_def New_def)
  from Close_idempotent [OF h fl]
  have "Close envFail ?s = Inr (OrNil (errors ?c), ?c) \<and>
        Close envFail ?c = Inr (OrNil (errors ?c), ?c)"
    unfolding f by blast
  then show ?thesis unfolding e .
qed

text \<open>
  A later \<^verbatim>\<open>Close\<close> can have an effect. A record is sent and its \<^verbatim>\<open>buffer\<close> task is
  started; \<^verbatim>\<open>Close\<close> gets the mutex first, finds the buffer empty and returns nil; the
  task then puts the record into the buffer; the next \<^verbatim>\<open>Close\<close> flushes it, here with
  a failing storage, and returns an error for a session whose first \<^verbatim>\<open>Close\<close> returned
  nil.
\<close>

theorem Close_idempotent_counterexample:
  "Import [sampleItem ''rss'' [9]] (New 10 1000 sampleInfo) =
     Inr (None, (New 10 1000 sampleInfo)\<lparr>itemChan := [sampleItem ''rss'' [9]]\<rparr>) \<and>
   Close envFail ((New 10 1000 sampleInfo)\<lparr>itemChan := [sampleItem ''rss'' [9]]\<rparr>) =
     Inr (None, (New 10 1000 sampleInfo)
                  \<lparr>itemChan := [sampleItem ''rss'' [9]],
                   stopped := True, ctxDone := True, chanClosed := True\<rparr>) \<and>
   deliver envFail 0
     ((New 10 1000 sampleInfo)
        \<lparr>itemChan := [sampleItem ''rss'' [9]],
         stopped := True, ctxDone := True, chanClosed := True\<rparr>) =
     Inr ((New 10 1000 sampleInfo)
            \<lparr>itemBuffer := [sampleItem ''rss'' [9]],
             stopped := True, ctxDone := True, chanClosed := True\<rparr>) \<and>
   Close envFail
     ((New 10 1000 sampleInfo)
        \<lparr>itemBuffer := [sampleItem ''rss'' [9]],
         stopped := True, ctxDone := True, chanClosed := True\<rparr>) =
     Inr (Some [\<lparr>Items = [sampleItem ''rss'' [9]], Err = CollaboratorError ''down''\<rparr>],
          (New 10 1000 sampleInfo)
            \<lparr>stopped := True, ctxDone := True, chanClosed := True,
             errors := [\<lparr>Items = [sampleItem ''rss'' [9]], Err = CollaboratorError ''down''\<rparr>],
             calls := [(CreateSources [\<lparr>Key = ''rss'', TorrentSource.Name = ''rss''\<rparr>],
                        Some (CollaboratorError ''down''))]\<rparr>)"
  by (simp add: Import_def Close_def deliver_def buffer_def flushLocked_def makeItems_def
        persistItems_def createSources_def perform_def envFail_def sampleMaxCap_def New_def
        sampleItem_def Let_def OrNil_def IsNil_def)

section \<open>The timer of the scheduler\<close>

lemma buffer_below:
  assumes "int (length (itemBuffer s)) + 1 < sint (bufferSize s)"
  shows "buffer env item s = Inr (s\<lparr>itemBuffer := itemBuffer s @ [item]\<rparr>)"
  using assms by (simp add: buffer_def Let_def)

text \<open>
  Claim C9 asks for a bound on the time a record waits for the timer, whatever the
  arrivals. The loop does not give one: as long as each record arrives less than
  \<^verbatim>\<open>maxWaitTime\<close> after the loop began to wait, the timer case never runs, no flush
  happens and no collaborator is called, however many records arrive and however long
  that takes in total (the size threshold apart).
\<close>

theorem run_trickle_never_flushes:
  assumes "0 < maxWaitTime s"
    and "\<forall>a \<in> set arrivals. int (fst a) < maxWaitTime s"
    and "int (length (itemBuffer s) + length arrivals) < sint (bufferSize s)"
  shows "run env arrivals s = Some (Inr (s\<lparr>itemBuffer := itemBuffer s @ map snd arrivals\<rparr>))"
  using assms
proof (induction arrivals arbitrary: s)
  case Nil
  then show ?case by simp
next
  case (Cons a arrivals)
  obtain gap item where a: "a = (gap, item)" by (cases a)
  let ?s1 = "s\<lparr>itemBuffer := itemBuffer s @ [item]\<rparr>"
  from Cons.prems(3) have "int (length (itemBuffer s)) + 1 < sint (bufferSize s)" by simp
  then have b: "buffer env item s = Inr ?s1" by (rule buffer_below)
  from Cons.prems a have g: "int gap < maxWaitTime s" by simp
  have "run env arrivals ?s1 =
      Some (Inr (?s1\<lparr>itemBuffer := itemBuffer ?s1 @ map snd arrivals\<rparr>))"
    using Cons.prems by (intro Cons.IH) simp_all
  with Cons.prems(1) g b a show ?case by simp
qed

theorem run_trickle_never_flushes_witness:
  "(999 + 999 + 999 + 999 + 999 :: int) > 4 * maxWaitTime (New 10 1000 sampleInfo) \<and>
   run envOk [(999, sampleItem ''rss'' [1]), (999, sampleItem ''rss'' [2]),
              (999, sampleItem ''rss'' [3]), (999, sampleItem ''rss'' [4]),
              (999, sampleItem ''rss'' [5])] (New 10 1000 sampleInfo) =
     Some (Inr ((New 10 1000 sampleInfo)
                  \<lparr>itemBuffer := [sampleItem ''rss'' [1], sampleItem ''rss'' [2],
                                  sampleItem ''rss'' [3], sampleItem ''rss'' [4],
                                  sampleItem ''rss'' [5]]\<rparr>))"
proof -
  let ?s = "New 10 1000 sampleInfo"
  let ?arrivals = "[(999, sampleItem ''rss'' [1]), (999, sampleItem ''rss'' [2]),
              (999, sampleItem ''rss'' [3]), (999, sampleItem ''rss'' [4]),
              (999::nat, sampleItem ''rss'' [5])]"
  have h1: "0 < maxWaitTime ?s" by (simp add: New_def)
  have h2: "\<forall>a \<in> set ?arrivals. int (fst a) < maxWaitTime ?s" by (simp add: New_def)
  have h3: "int (length (itemBuffer ?s) + length ?arrivals) < sint (bufferSize ?s)"
    by (simp add: New_def)
  from run_trickle_never_flushes [OF h1 h2 h3, of envOk] show ?thesis
    by (simp add: New_def)
qed

lemma run_timer_fires:
  "run envOk [(999, sampleItem ''rss'' [1]), (1000, sampleItem ''rss'' [2])]
     (New 10 1000 sampleInfo) =
   Some (Inr ((New 10 1000 sampleInfo)
           \<lparr>itemBuffer := [sampleItem ''rss'' [2]], importedSources := {''rss''},
            importedHashes := [[1]],
            calls := [(CreateSources [\<lparr>Key = ''rss'', TorrentSource.Name = ''rss''\<rparr>], None),
                      (CreateTorrents [createTorrentModel sampleInfo (sampleItem ''rss'' [1])], None),
                      (Publish [[1]], None)]\<rparr>))"
  by (simp add: buffer_def flush_def flushLocked_def makeItems_def persistItems_def
        createSources_def createTorrents_def perform_def markImported_def envOk_def
        sampleMaxCap_def New_def sampleItem_def Let_def)

end
